theory Spec2Isabelle
  imports Main
begin

section \<open>Python values\<close>

text \<open>
  A Python \<^verbatim>\<open>str\<close> is a sequence of Unicode code points, and \<^verbatim>\<open>len\<close> counts code
  points. A string is therefore modelled as a list of code points; \<open>py\<close> turns an ASCII
  literal of the source into such a list.
\<close>

type_synonym pystr = "nat list"

definition py :: "string \<Rightarrow> pystr" where
  "py s = map of_char s"

datatype py_error = TypeError | IndexError | ZeroDivisionError | ValueError | SystemExit

section \<open>Result records (\<^verbatim>\<open>epmc_query.py\<close>, \<^verbatim>\<open>__main__.py\<close>)\<close>

text \<open>
  \<^verbatim>\<open>get_relevant_info_from_results\<close> builds one dict per document with the keys
  ID, Title, Year, Author, Publication type, Abstract, Keywords, url and prep_of.
  \<^verbatim>\<open>prep_of\<close> is the identifier the document is a preprint of, or the marker string
  \<^verbatim>\<open>"nothing"\<close>. Popping \<^verbatim>\<open>prep_of\<close> leaves a \<open>doc_core\<close>.
\<close>

record doc_core =
  ID :: pystr
  Title :: pystr
  Year :: pystr
  Author :: pystr
  Publication_type :: pystr
  Abstract :: pystr
  Keywords :: "pystr list"
  url :: pystr

record doc = doc_core +
  prep_of :: pystr

text \<open>The per-search dict as \<^verbatim>\<open>run_queries_and_get_results\<close> leaves it.\<close>

record 'd results_dict =
  gene_key :: pystr
  gene_name :: pystr
  search_terms :: pystr
  query_specific_syns :: "pystr list"
  query_strings :: pystr
  true_result_doc_info :: "'d list"
  res_count :: nat

subsection \<open>\<^verbatim>\<open>LitSpy.remove_redundant_preprints\<close>\<close>

text \<open>
  \<^verbatim>\<open>
  for res_dict in results_dicts:
      all_ids = [x['ID'] for x in res_dict['true_result_doc_info']]
      res_dict['true_result_doc_info'] = [x for x in res_dict['true_result_doc_info']
                                          if x['prep_of'] not in all_ids]
      for each in res_dict['true_result_doc_info']:
          each.pop('prep_of')
  return results_dicts
  \<close>
\<close>

definition non_redundant_docs :: "doc list \<Rightarrow> doc list" where
  "non_redundant_docs docs =
     (let all_ids = map ID docs in filter (\<lambda>x. prep_of x \<notin> set all_ids) docs)"

definition remove_redundant_preprints_dict :: "doc results_dict \<Rightarrow> doc_core results_dict" where
  "remove_redundant_preprints_dict res_dict =
     \<lparr> gene_key = gene_key res_dict, gene_name = gene_name res_dict,
       search_terms = search_terms res_dict,
       query_specific_syns = query_specific_syns res_dict,
       query_strings = query_strings res_dict,
       true_result_doc_info =
         map doc_core.truncate (non_redundant_docs (true_result_doc_info res_dict)),
       res_count = res_count res_dict \<rparr>"

definition remove_redundant_preprints :: "doc results_dict list \<Rightarrow> doc_core results_dict list" where
  "remove_redundant_preprints results_dicts = map remove_redundant_preprints_dict results_dicts"

text \<open>A document as the parser builds it, and a one-search results dict, for concrete runs.\<close>

definition mk_doc :: "pystr \<Rightarrow> pystr \<Rightarrow> pystr \<Rightarrow> pystr \<Rightarrow> doc" where
  "mk_doc i t a p =
     \<lparr> ID = i, Title = t, Year = py ''2020'', Author = py ''unavailable'',
       Publication_type = py ''unavailable'', Abstract = a, Keywords = [],
       url = py ''https://europepmc.org/abstract/MED/'' @ i, prep_of = p \<rparr>"

definition mk_results :: "'d list \<Rightarrow> 'd results_dict" where
  "mk_results docs =
     \<lparr> gene_key = py ''1'', gene_name = py ''ABC2'', search_terms = [],
       query_specific_syns = [], query_strings = [], true_result_doc_info = docs,
       res_count = length docs \<rparr>"

subsection \<open>String methods\<close>

definition startswith :: "pystr \<Rightarrow> pystr \<Rightarrow> bool" where
  "startswith s p = (take (length p) s = p)"

definition strip_chars :: "pystr \<Rightarrow> pystr \<Rightarrow> pystr" where
  "strip_chars cs s = rev (dropWhile (\<lambda>c. c \<in> set cs) (rev (dropWhile (\<lambda>c. c \<in> set cs) s)))"

fun join :: "pystr \<Rightarrow> pystr list \<Rightarrow> pystr" where
  "join sep [] = []"
| "join sep [x] = x"
| "join sep (x # y # ys) = x @ sep @ join sep (y # ys)"

subsection \<open>\<^verbatim>\<open>urllib.parse.quote_plus\<close>\<close>

definition utf8 :: "nat \<Rightarrow> nat list" where
  "utf8 c =
     (if c < 128 then [c]
      else if c < 2048 then [192 + c div 64, 128 + c mod 64]
      else if c < 65536 then [224 + c div 4096, 128 + (c div 64) mod 64, 128 + c mod 64]
      else [240 + c div 262144, 128 + (c div 4096) mod 64, 128 + (c div 64) mod 64,
            128 + c mod 64])"

definition hexdigit :: "nat \<Rightarrow> nat" where
  "hexdigit n = (if n < 10 then 48 + n else 55 + n)"

definition percent :: "nat \<Rightarrow> pystr" where
  "percent b = [37, hexdigit (b div 16), hexdigit (b mod 16)]"

definition always_safe :: "nat \<Rightarrow> bool" where
  "always_safe c \<longleftrightarrow>
     (65 \<le> c \<and> c \<le> 90) \<or> (97 \<le> c \<and> c \<le> 122) \<or> (48 \<le> c \<and> c \<le> 57)
     \<or> c = 95 \<or> c = 46 \<or> c = 45 \<or> c = 126"

definition quote_char :: "nat \<Rightarrow> pystr" where
  "quote_char c =
     (if c = 32 then [43] else if always_safe c then [c] else concat (map percent (utf8 c)))"

definition quote_plus :: "pystr \<Rightarrow> pystr" where
  "quote_plus s = concat (map quote_char s)"


section \<open>Query Budget Packer (\<^verbatim>\<open>epmc_query.py\<close>)\<close>

text \<open>
  The fields of \<^verbatim>\<open>Query\<close> that the packer reads: the cleaned synonym lists behind the
  query strings.
\<close>

record query_state =
  gene_syns :: "pystr list"
  disease_syns :: "pystr list"
  tissue_syns :: "pystr list"
  kwd_syn_lists :: "pystr list list"

subsection \<open>\<^verbatim>\<open>Query.add_abstract_title_and_join_synonyms\<close>\<close>

definition field_query :: "bool \<Rightarrow> pystr \<Rightarrow> pystr" where
  "field_query search_in_kwds syn =
     (if startswith syn (py ''(TITLE:'') then strip_chars (py ''()'') syn
      else if search_in_kwds
        then py ''TITLE:\"'' @ syn @ py ''\" OR KW:\"'' @ syn @ py ''\" OR ABSTRACT:\"'' @ syn @ py ''\"''
        else py ''TITLE:\"'' @ syn @ py ''\" OR ABSTRACT:\"'' @ syn @ py ''\"'')"

definition add_abstract_title_and_join_synonyms :: "pystr list \<Rightarrow> bool \<Rightarrow> bool \<Rightarrow> pystr" where
  "add_abstract_title_and_join_synonyms syns search_in_kwds join_on_and =
     (let exp_syns = map (field_query search_in_kwds) syns
      in if join_on_and then py ''('' @ join (py '') & ('') exp_syns @ py '')''
         else py ''('' @ join (py '' OR '') exp_syns @ py '')'')"

subsection \<open>\<^verbatim>\<open>Query.estimate_query_string_length\<close>\<close>

definition estimate_query_string_length :: "pystr \<Rightarrow> int" where
  "estimate_query_string_length q_string =
     (if q_string \<noteq> [] then int (length (quote_plus q_string)) + 12 else 0)"

subsection \<open>\<^verbatim>\<open>Query.make_len_dict\<close>, \<^verbatim>\<open>Query.create_query_length_list\<close>\<close>

text \<open>
  The keys of the length dict are the strings \<^verbatim>\<open>diseases\<close>, \<^verbatim>\<open>tissues\<close>, \<^verbatim>\<open>others\<close>,
  \<^verbatim>\<open>genes\<close> and \<^verbatim>\<open>kwd1\<close>, \<^verbatim>\<open>kwd2\<close>, ...; no other key is ever created. A dict keeps
  insertion order, so it is an association list.
\<close>

datatype seg_key = Diseases | Tissues | Others | Genes | Kwd nat

record seg_entry =
  seg_string :: pystr
  seg_len :: int

type_synonym len_dict = "(seg_key \<times> seg_entry) list"

definition mk_entry :: "pystr \<Rightarrow> seg_entry" where
  "mk_entry s = \<lparr> seg_string = s, seg_len = estimate_query_string_length s \<rparr>"

definition make_len_dict :: "pystr \<Rightarrow> pystr \<Rightarrow> pystr \<Rightarrow> pystr \<Rightarrow> pystr list \<Rightarrow> len_dict" where
  "make_len_dict diseases tissues others genes kwds =
     [(Diseases, mk_entry diseases), (Tissues, mk_entry tissues), (Others, mk_entry others),
      (Genes, mk_entry genes)]
     @ map (\<lambda>(i, kwd). (Kwd (Suc i), mk_entry kwd)) (enumerate 0 kwds)"

definition create_query_length_list :: "len_dict \<Rightarrow> int list" where
  "create_query_length_list query_len_dict =
     map (\<lambda>(key, e). seg_len e) (filter (\<lambda>(key, e). key \<noteq> Others) query_len_dict)"

subsection \<open>\<^verbatim>\<open>Query.identify_long_queries\<close>\<close>

text \<open>
  One pass of the \<^verbatim>\<open>for\<close> loop over a copy of the keys: every key other than
  \<^verbatim>\<open>others\<close> whose length equals \<^verbatim>\<open>max(len_list)\<close> moves to \<^verbatim>\<open>long_strs\<close>;
  \<^verbatim>\<open>len_list\<close> is only recomputed after the pass. \<^verbatim>\<open>max\<close> is evaluated only for such a
  key, when \<^verbatim>\<open>len_list\<close> is not empty.
\<close>

definition is_longest :: "int list \<Rightarrow> seg_key \<times> seg_entry \<Rightarrow> bool" where
  "is_longest len_list = (\<lambda>(key, e). key \<noteq> Others \<and> seg_len e = Max (set len_list))"

definition move_longest :: "len_dict \<Rightarrow> (seg_key \<times> pystr) list \<Rightarrow> len_dict \<times> (seg_key \<times> pystr) list" where
  "move_longest len_dict long_strs =
     (let len_list = create_query_length_list len_dict
      in (filter (\<lambda>x. \<not> is_longest len_list x) len_dict,
          long_strs @ map (\<lambda>(key, e). (key, seg_string e)) (filter (is_longest len_list) len_dict)))"

text \<open>
  The \<^verbatim>\<open>while\<close> loop. It can run forever (once only \<^verbatim>\<open>others\<close> is left and the bound is
  negative), so it takes fuel: \<open>None\<close> is a run that has not returned.
\<close>

fun identify_loop :: "nat \<Rightarrow> len_dict \<Rightarrow> (seg_key \<times> pystr) list \<Rightarrow> int \<Rightarrow>
    (len_dict \<times> (seg_key \<times> pystr) list) option" where
  "identify_loop 0 len_dict long_strs max_length = None"
| "identify_loop (Suc fuel) len_dict long_strs max_length =
     (if sum_list (create_query_length_list len_dict) > max_length - 500
      then (case move_longest len_dict long_strs of
              (len_dict', long_strs') \<Rightarrow> identify_loop fuel len_dict' long_strs' max_length)
      else Some (len_dict, long_strs))"

definition identify_long_queries :: "nat \<Rightarrow> len_dict \<Rightarrow> int \<Rightarrow>
    (len_dict \<times> (seg_key \<times> pystr) list) option" where
  "identify_long_queries fuel len_dict max_length = identify_loop fuel len_dict [] max_length"

subsection \<open>\<^verbatim>\<open>Query.split_long_queries\<close>\<close>

text \<open>The length the chunk would have with the next synonym, as the source estimates it.\<close>

definition qstring_len_of :: "pystr \<Rightarrow> pystr \<Rightarrow> int" where
  "qstring_len_of querystring syn =
     int (length (quote_plus querystring)) + int (length (quote_plus syn)) * 3 + 62"

text \<open>
  The inner \<^verbatim>\<open>while qstring_len <= chunk_size and not finished\<close> loop, returning
  \<^verbatim>\<open>(i, querystring, finished)\<close>. Reading \<^verbatim>\<open>syns[i]\<close> past the end raises IndexError,
  which the source catches by setting \<^verbatim>\<open>finished\<close>.
\<close>

function chunk_grow :: "pystr list \<Rightarrow> int \<Rightarrow> nat \<Rightarrow> pystr \<Rightarrow> int \<Rightarrow> bool \<Rightarrow> nat \<times> pystr \<times> bool" where
  "chunk_grow syns chunk_size i querystring qstring_len finished =
     (if qstring_len \<le> chunk_size \<and> \<not> finished
      then (let i' = i + 1;
                querystring' = add_abstract_title_and_join_synonyms (take i' syns) True False
            in if i' < length syns
               then chunk_grow syns chunk_size i' querystring'
                      (qstring_len_of querystring' (syns ! i')) finished
               else chunk_grow syns chunk_size i' querystring' qstring_len True)
      else (i, querystring, finished))"
  by pat_completeness auto
termination
  by (relation "measure (\<lambda>(syns, chunk_size, i, querystring, qstring_len, finished).
        if finished then 0 else Suc (Suc (length syns) - i))") auto

text \<open>
  The outer \<^verbatim>\<open>while syns\<close> loop. At its head \<^verbatim>\<open>i\<close> is 0 and \<^verbatim>\<open>querystring\<close> is
  empty (both are reset at the end of the \<^verbatim>\<open>else\<close> branch). The \<^verbatim>\<open>if\<close> branch only logs
  a warning and changes nothing, so the loop takes fuel.
\<close>

fun chunk_loop :: "nat \<Rightarrow> int \<Rightarrow> pystr list \<Rightarrow> pystr list \<Rightarrow> bool \<Rightarrow> pystr list option" where
  "chunk_loop 0 chunk_size syns querystrings finished = None"
| "chunk_loop (Suc fuel) chunk_size syns querystrings finished =
     (if syns \<noteq> [] then
        (let qstring_len = qstring_len_of [] (syns ! 0)
         in if qstring_len > chunk_size
            then chunk_loop fuel chunk_size syns querystrings finished
            else (case chunk_grow syns chunk_size 0 [] qstring_len finished of
                    (i, querystring, finished') \<Rightarrow>
                      chunk_loop fuel chunk_size
                        (if length syns \<ge> i then drop i syns else [])
                        (querystrings @ [querystring]) finished'))
      else Some querystrings)"

text \<open>The synonyms behind a key: \<^verbatim>\<open>self.kwd_syn_lists[int(k.strip("kwd")) - 1]\<close> can raise.\<close>

fun syns_of_key :: "query_state \<Rightarrow> seg_key \<Rightarrow> py_error + pystr list" where
  "syns_of_key st Genes = Inr (gene_syns st)"
| "syns_of_key st Diseases = Inr (disease_syns st)"
| "syns_of_key st Tissues = Inr (tissue_syns st)"
| "syns_of_key st (Kwd n) =
     (if 0 < n \<and> n \<le> length (kwd_syn_lists st) then Inr (kwd_syn_lists st ! (n - 1))
      else if n = 0 \<and> kwd_syn_lists st \<noteq> [] then Inr (last (kwd_syn_lists st))
      else Inl IndexError)"
| "syns_of_key st Others = Inl SystemExit"

text \<open>The \<^verbatim>\<open>for k, v in long_strs.items()\<close> loop, collecting \<^verbatim>\<open>query_string_chunks\<close>.\<close>

fun chunk_all :: "nat \<Rightarrow> query_state \<Rightarrow> int \<Rightarrow> (seg_key \<times> pystr) list \<Rightarrow>
    (py_error + pystr list list) option" where
  "chunk_all fuel st chunk_size [] = Some (Inr [])"
| "chunk_all fuel st chunk_size ((k, v) # rest) =
     (case syns_of_key st k of
        Inl e \<Rightarrow> Some (Inl e)
      | Inr syns \<Rightarrow>
          (case chunk_loop fuel chunk_size syns [] False of
             None \<Rightarrow> None
           | Some querystrings \<Rightarrow>
               (case chunk_all fuel st chunk_size rest of
                  None \<Rightarrow> None
                | Some (Inl e) \<Rightarrow> Some (Inl e)
                | Some (Inr chunks) \<Rightarrow> Some (Inr (querystrings # chunks)))))"

text \<open>\<^verbatim>\<open>itertools.product(*query_string_chunks)\<close>, in its order.\<close>

fun product_lists_py :: "'a list list \<Rightarrow> 'a list list" where
  "product_lists_py [] = [[]]"
| "product_lists_py (xs # xss) = concat (map (\<lambda>x. map (\<lambda>ys. x # ys) (product_lists_py xss)) xs)"

definition split_long_queries :: "nat \<Rightarrow> query_state \<Rightarrow> len_dict \<Rightarrow> int \<Rightarrow>
    (py_error + len_dict \<times> pystr list list) option" where
  "split_long_queries fuel st len_dict max_length =
     (case identify_long_queries fuel len_dict max_length of
        None \<Rightarrow> None
      | Some (shorter_len_dict, long_strs) \<Rightarrow>
          (let est_total_len = sum_list (create_query_length_list shorter_len_dict)
                                 + int (length shorter_len_dict) * 10
           in if long_strs = [] then Some (Inl ZeroDivisionError)
              else (let chunk_size = ((max_length - est_total_len) div int (length long_strs)) - 100
                    in case chunk_all fuel st chunk_size long_strs of
                         None \<Rightarrow> None
                       | Some (Inl e) \<Rightarrow> Some (Inl e)
                       | Some (Inr query_string_chunks) \<Rightarrow>
                           Some (Inr (shorter_len_dict, product_lists_py query_string_chunks)))))"

subsection \<open>\<^verbatim>\<open>Query.create_epmc_queries\<close>\<close>

definition non_empty_part :: "pystr \<Rightarrow> bool" where
  "non_empty_part each \<longleftrightarrow> each \<noteq> [] \<and> each \<noteq> py ''()''"

definition others_len :: "len_dict \<Rightarrow> int" where
  "others_len len_dict = (case map_of len_dict Others of Some e \<Rightarrow> seg_len e | None \<Rightarrow> 0)"

definition create_epmc_queries :: "nat \<Rightarrow> query_state \<Rightarrow> pystr \<Rightarrow> pystr \<Rightarrow> pystr \<Rightarrow> pystr \<Rightarrow>
    pystr list \<Rightarrow> (py_error + pystr list) option" where
  "create_epmc_queries fuel st diseases tissues others genes kwds =
     (let len_dict = make_len_dict diseases tissues others genes kwds;
          leftover_amount = 7500 - others_len len_dict;
          query_lengths_list = create_query_length_list len_dict
      in if sum_list query_lengths_list + 20 > leftover_amount
         then (case split_long_queries fuel st len_dict leftover_amount of
                 None \<Rightarrow> None
               | Some (Inl e) \<Rightarrow> Some (Inl e)
               | Some (Inr (len_dict', chunk_combinations)) \<Rightarrow>
                   (let shorter_parts = filter non_empty_part (map (\<lambda>(key, e). seg_string e) len_dict');
                        consistent_query_string = join (py '' & '') shorter_parts
                    in Some (Inr (map (\<lambda>combo.
                         join (py '' & '') (map (\<lambda>each. py ''('' @ strip_chars (py ''(,) '') each @ py '')'') combo)
                           @ py '' & '' @ consistent_query_string) chunk_combinations))))
         else Some (Inr [join (py '' & '')
                (filter non_empty_part ([genes, diseases, tissues, others] @ kwds))]))"

section \<open>Auxiliary definitions for the proofs\<close>

text \<open>The length of a string after \<^verbatim>\<open>quote_plus\<close>, as an integer.\<close>

definition enc :: "pystr \<Rightarrow> int" where
  "enc s = int (length (quote_plus s))"

text \<open>A gene whose only synonym is 2500 letters long.\<close>

definition long_syn :: pystr where
  "long_syn = replicate 2500 97"

definition st_long :: query_state where
  "st_long = \<lparr> gene_syns = [long_syn], disease_syns = [], tissue_syns = [], kwd_syn_lists = [] \<rparr>"

text \<open>
  A chunk is within budget when, wrapped in brackets as \<^verbatim>\<open>create_epmc_queries\<close> wraps it,
  its encoded length is at most the chunk size. A length dict is consistent when every
  entry's length is the estimate of its string.
\<close>

definition chunk_ok :: "int \<Rightarrow> pystr \<Rightarrow> bool" where
  "chunk_ok cs c \<longleftrightarrow> enc (py ''('' @ strip_chars (py ''(,) '') c @ py '')'') \<le> cs"

definition entries_ok :: "len_dict \<Rightarrow> bool" where
  "entries_ok d \<longleftrightarrow> (\<forall>(k, e) \<in> set d. seg_len e = estimate_query_string_length (seg_string e))"

definition total_len :: "len_dict \<Rightarrow> int" where
  "total_len d = sum_list (map (\<lambda>(k, e). seg_len e) d)"

definition others_sum :: "len_dict \<Rightarrow> int" where
  "others_sum d = sum_list (map (\<lambda>(k, e). seg_len e) (filter (\<lambda>(k, e). k = Others) d))"


text \<open>A small search that fits one query.\<close>

definition st_small :: query_state where
  "st_small = \<lparr> gene_syns = [py ''ABC1'', py ''ABC 1''], disease_syns = [py ''flu''],
       tissue_syns = [], kwd_syn_lists = [] \<rparr>"

definition q_small :: pystr where
  "q_small = py ''(TITLE:\"ABC1\" OR KW:\"ABC1\" OR ABSTRACT:\"ABC1\" OR TITLE:\"ABC 1\" OR KW:\"ABC 1\" OR ABSTRACT:\"ABC 1\") & (TITLE:\"flu\" OR KW:\"flu\" OR ABSTRACT:\"flu\") & SRC:MED''"

section \<open>Regular expressions (\<^verbatim>\<open>re\<close>)\<close>

text \<open>
  The patterns of the source are written as terms of \<open>rx\<close>, and \<open>rx_run\<close> is a backtracking
  matcher in the order of Python's: it returns every way the pattern can match at the current
  position, the preferred one first (a greedy star tries one more iteration before stopping,
  an alternative tries its left branch first). A state of the matcher is the character just
  consumed (for \<^verbatim>\<open>\b\<close> and \<^verbatim>\<open>^\<close>) and the rest of the string; a capture is the text of its
  group.

  The character classes \<^verbatim>\<open>\d\<close>, \<^verbatim>\<open>\s\<close>, \<^verbatim>\<open>\w\<close> and the case mappings are those of
  ASCII; the Unicode tables behind Python's are not part of the repository. A string of the
  data that the source pastes into a pattern (a root, a synonym part) is matched as literal
  text, which is what Python does when it holds no regex metacharacter.
\<close>

datatype rx =
    Sym "nat \<Rightarrow> bool"
  | Eps
  | Seq rx rx
  | Alt rx rx
  | Star rx
  | Lazy rx
  | Bnd
  | Bol
  | Eol
  | Grp nat rx

type_synonym caps = "(nat \<times> pystr) list"

definition is_digit :: "nat \<Rightarrow> bool" where
  "is_digit c \<longleftrightarrow> 48 \<le> c \<and> c \<le> 57"

definition is_space :: "nat \<Rightarrow> bool" where
  "is_space c \<longleftrightarrow> c = 32 \<or> (9 \<le> c \<and> c \<le> 13) \<or> (28 \<le> c \<and> c \<le> 31)"

definition is_upper :: "nat \<Rightarrow> bool" where
  "is_upper c \<longleftrightarrow> 65 \<le> c \<and> c \<le> 90"

definition is_lower :: "nat \<Rightarrow> bool" where
  "is_lower c \<longleftrightarrow> 97 \<le> c \<and> c \<le> 122"

definition is_word :: "nat \<Rightarrow> bool" where
  "is_word c \<longleftrightarrow> is_digit c \<or> is_upper c \<or> is_lower c \<or> c = 95"

definition lower_char :: "nat \<Rightarrow> nat" where
  "lower_char c = (if is_upper c then c + 32 else c)"

definition upper_char :: "nat \<Rightarrow> nat" where
  "upper_char c = (if is_lower c then c - 32 else c)"

definition lower :: "pystr \<Rightarrow> pystr" where
  "lower s = map lower_char s"

definition upper :: "pystr \<Rightarrow> pystr" where
  "upper s = map upper_char s"

definition is_boundary :: "nat option \<Rightarrow> pystr \<Rightarrow> bool" where
  "is_boundary prev rest \<longleftrightarrow>
     ((case prev of Some x \<Rightarrow> is_word x | None \<Rightarrow> False)
      \<noteq> (case rest of x # xs \<Rightarrow> is_word x | [] \<Rightarrow> False))"

function rx_run :: "rx \<Rightarrow> nat option \<Rightarrow> pystr \<Rightarrow> caps \<Rightarrow> (nat option \<times> pystr \<times> caps) list" where
  "rx_run (Sym f) prev rest c =
     (case rest of [] \<Rightarrow> [] | x # xs \<Rightarrow> if f x then [(Some x, xs, c)] else [])"
| "rx_run Eps prev rest c = [(prev, rest, c)]"
| "rx_run (Seq a b) prev rest c =
     concat (map (\<lambda>(pv, r, c'). rx_run b pv r c') (rx_run a prev rest c))"
| "rx_run (Alt a b) prev rest c = rx_run a prev rest c @ rx_run b prev rest c"
| "rx_run (Star a) prev rest c =
     concat (map (\<lambda>(pv, r, c'). if length r < length rest then rx_run (Star a) pv r c' else [])
               (rx_run a prev rest c)) @ [(prev, rest, c)]"
| "rx_run (Lazy a) prev rest c =
     (prev, rest, c) #
     concat (map (\<lambda>(pv, r, c'). if length r < length rest then rx_run (Lazy a) pv r c' else [])
               (rx_run a prev rest c))"
| "rx_run Bnd prev rest c = (if is_boundary prev rest then [(prev, rest, c)] else [])"
| "rx_run Bol prev rest c = (if prev = None then [(prev, rest, c)] else [])"
| "rx_run Eol prev rest c = (if rest = [] \<or> rest = [10] then [(prev, rest, c)] else [])"
| "rx_run (Grp n a) prev rest c =
     map (\<lambda>(pv, r, c'). (pv, r, (n, take (length rest - length r) rest) # c'))
       (rx_run a prev rest c)"
  by pat_completeness auto
termination
  by (relation "measures [\<lambda>(r, prev, rest, c). size r, \<lambda>(r, prev, rest, c). length rest]") auto

definition re_match :: "rx \<Rightarrow> pystr \<Rightarrow> (pystr \<times> caps) option" where
  "re_match r s = (case rx_run r None s [] of [] \<Rightarrow> None | (pv, rest, c) # _ \<Rightarrow> Some (rest, c))"

text \<open>Pattern pieces: a character (with or without \<^verbatim>\<open>re.IGNORECASE\<close>), literal text, \<^verbatim>\<open>.\<close>, \<^verbatim>\<open>?\<close>, \<^verbatim>\<open>+\<close>.\<close>

definition chr :: "bool \<Rightarrow> nat \<Rightarrow> rx" where
  "chr ic x = (if ic then Sym (\<lambda>c. lower_char c = lower_char x) else Sym (\<lambda>c. c = x))"

fun lit :: "bool \<Rightarrow> pystr \<Rightarrow> rx" where
  "lit ic [] = Eps"
| "lit ic [x] = chr ic x"
| "lit ic (x # xs) = Seq (chr ic x) (lit ic xs)"

definition dot :: rx where
  "dot = Sym (\<lambda>c. c \<noteq> 10)"

definition opt :: "rx \<Rightarrow> rx" where
  "opt r = Alt r Eps"

definition plus :: "rx \<Rightarrow> rx" where
  "plus r = Seq r (Star r)"

fun alts :: "rx list \<Rightarrow> rx" where
  "alts [] = Sym (\<lambda>c. False)"
| "alts [r] = r"
| "alts (r # rs) = Alt r (alts rs)"

fun seqs :: "rx list \<Rightarrow> rx" where
  "seqs [] = Eps"
| "seqs [r] = r"
| "seqs (r # rs) = Seq r (seqs rs)"

subsection \<open>\<^verbatim>\<open>alternative_characters.py\<close>\<close>

definition hyphens :: "pystr list" where
  "hyphens = [[45], [8211], [8212], [8209]]"

definition numerals :: "pystr list" where
  "numerals = [py ''I'', py ''X'', py ''V'']"

section \<open>Indirect-List Matcher (\<^verbatim>\<open>Query.analyse_text_for_gene_in_list\<close>)\<close>

text \<open>\<^verbatim>\<open>({'|'.join(hyphens)}|\s)*\<close>\<close>

definition hyph_or_space :: rx where
  "hyph_or_space = Star (alts (map (lit False) hyphens @ [Sym is_space]))"

definition list_pattern :: "pystr \<Rightarrow> pystr \<Rightarrow> rx" where
  "list_pattern root syn_part =
     seqs [Star dot, lit False (lower root), opt (chr False 39), hyph_or_space,
           plus (Sym is_digit), opt (Sym is_lower), Star (Sym is_digit), hyph_or_space,
           Star (seqs [chr False 44, hyph_or_space, plus (Sym is_digit), opt (Sym is_lower),
                       Star (Sym is_digit)]),
           alts [lit False (py ''and''), lit False (py ''or''), chr False 44],
           Sym is_space, hyph_or_space, lit False (lower syn_part), Star dot]"

text \<open>
  \<^verbatim>\<open>
  re.match(fr".*{root.lower()}'?({'|'.join(hyphens)}|\s)*\d+[a-z]?\d*({'|'.join(hyphens)}|\s)*"
           fr"(,({'|'.join(hyphens)}|\s)*\d+[a-z]?\d*)*"
           fr"(and|or|,)\s({'|'.join(hyphens)}|\s)*{syn_part.lower()}.*", text)
  \<close>
  is \<open>list_pattern\<close> above. \<open>contains sub s\<close> is Python's \<^verbatim>\<open>sub in s\<close>.
\<close>

fun contains :: "pystr \<Rightarrow> pystr \<Rightarrow> bool" where
  "contains sub [] = (sub = [])"
| "contains sub (x # xs) = (startswith (x # xs) sub \<or> contains sub xs)"

definition analyse_text_for_gene_in_list ::
    "pystr \<Rightarrow> pystr \<Rightarrow> (pystr \<times> pystr list) list \<Rightarrow> bool" where
  "analyse_text_for_gene_in_list abstract title root_and_syn_part =
     (let text = lower (join (py ''. '') [title, abstract])
      in list_ex (\<lambda>(root, syn_part_list).
           contains (lower root) text \<and>
           list_ex (\<lambda>syn_part.
              contains (lower syn_part) text \<and>
              re_match (list_pattern root syn_part) text \<noteq> None) syn_part_list)
         root_and_syn_part)"

section \<open>Result Harvester (\<^verbatim>\<open>epmc_query.py\<close>)\<close>

text \<open>
  A response of the search service after \<^verbatim>\<open>BeautifulSoup\<close> has parsed it: the hit count,
  the echoed query string, the dict that \<^verbatim>\<open>get_relevant_info_from_results\<close> builds for
  each \<^verbatim>\<open>result\<close> tag, and the next cursor mark when there is one. The service itself is
  a parameter: \<open>search query None\<close> is the request of \<^verbatim>\<open>run_epmc_query\<close>, \<open>search query
  (Some c)\<close> the request of \<^verbatim>\<open>run_epmc_query_all_results\<close> with cursor mark \<open>c\<close>; a
  transport or HTTP error makes the source call \<^verbatim>\<open>exit()\<close>.
\<close>

record page =
  hitcount :: int
  querystring :: pystr
  result_tags :: "doc list"
  nextcursormark :: "pystr option"

type_synonym service = "pystr \<Rightarrow> pystr option \<Rightarrow> py_error + page"

text \<open>The dict of queries that \<^verbatim>\<open>get_query_and_kwd_strings\<close> assembles.\<close>

record queries_dict =
  qd_gene_key :: pystr
  qd_gene_name :: pystr
  qd_search_terms :: pystr
  qd_queries :: "pystr list"
  qd_root_syns :: "(pystr \<times> pystr list) list"
  qd_root_queries :: "pystr list"
  qd_query_specific_syns :: "pystr list"

text \<open>
  \<^verbatim>\<open>list({v['ID']: v for v in doc_info_list}.values())\<close>: a dict keeps the position of the
  first insertion of a key and the value of the last.
\<close>

fun dict_set :: "'k \<Rightarrow> 'v \<Rightarrow> ('k \<times> 'v) list \<Rightarrow> ('k \<times> 'v) list" where
  "dict_set k v [] = [(k, v)]"
| "dict_set k v ((k', v') # d) = (if k' = k then (k, v) # d else (k', v') # dict_set k v d)"

definition unique_by_id :: "doc list \<Rightarrow> doc list" where
  "unique_by_id doc_info_list = map snd (foldl (\<lambda>d v. dict_set (ID v) v d) [] doc_info_list)"

text \<open>\<^verbatim>\<open>str\<close> of a non-negative integer.\<close>

fun str_nat :: "nat \<Rightarrow> pystr" where
  "str_nat n = (if n < 10 then [48 + n] else str_nat (n div 10) @ [48 + n mod 10])"

declare str_nat.simps [simp del]

definition no_result_doc :: doc where
  "no_result_doc = \<lparr> ID = py ''none'', Title = [], Year = [], Author = [], Publication_type = [],
     Abstract = [], Keywords = [], url = [], prep_of = [] \<rparr>"

subsection \<open>\<^verbatim>\<open>Query.parse_actual_result_content_for_relevant_info\<close>\<close>

text \<open>
  The loop over the result pages, with \<^verbatim>\<open>string_number\<close>, \<^verbatim>\<open>query_strings\<close>,
  \<^verbatim>\<open>doc_info_list\<close> and \<^verbatim>\<open>id_list\<close> as its state. \<^verbatim>\<open>list(set(id_list))\<close> is the list of
  identifiers without repetition (in an order Python does not fix).
\<close>

fun parse_actual_loop :: "page list \<Rightarrow> nat \<Rightarrow> pystr list \<Rightarrow> doc list \<Rightarrow> pystr list \<Rightarrow>
    pystr list \<times> doc list \<times> pystr list" where
  "parse_actual_loop [] string_number q_strings doc_info_list id_list =
     (q_strings, doc_info_list, id_list)"
| "parse_actual_loop (res # rest) string_number q_strings doc_info_list id_list =
     (let string_number' = string_number + 1;
          q_strings' = q_strings @ [str_nat string_number' @ py '': '' @ querystring res]
      in if result_tags res \<noteq> []
         then parse_actual_loop rest string_number' q_strings'
                (doc_info_list @ result_tags res) (id_list @ map ID (result_tags res))
         else parse_actual_loop rest string_number' q_strings'
                (doc_info_list @ [no_result_doc]) id_list)"

definition parse_actual_result_content_for_relevant_info ::
    "page list \<Rightarrow> pystr \<times> doc list \<times> pystr list" where
  "parse_actual_result_content_for_relevant_info result_text_list =
     (case parse_actual_loop result_text_list 0 [] [] [] of
        (q_strings, doc_info_list, id_list) \<Rightarrow>
          (join (py '' split_here '') q_strings, unique_by_id doc_info_list, remdups id_list))"

subsection \<open>\<^verbatim>\<open>Query.parse_potential_result_content_for_relevant_info\<close>\<close>

definition parse_potential_result_content_for_relevant_info ::
    "page \<Rightarrow> pystr list \<Rightarrow> doc list \<times> pystr \<times> int" where
  "parse_potential_result_content_for_relevant_info res ignore_ids =
     (unique_by_id (filter (\<lambda>d. ID d \<notin> set ignore_ids) (result_tags res)),
      (case nextcursormark res of None \<Rightarrow> py ''*'' | Some c \<Rightarrow> c),
      hitcount res)"

subsection \<open>\<^verbatim>\<open>Query.run_epmc_query_all_results\<close>\<close>

text \<open>
  The \<^verbatim>\<open>while continue_querying and res_count <= 1000\<close> loop, with \<^verbatim>\<open>res_info\<close>,
  \<^verbatim>\<open>c_mark\<close>, \<^verbatim>\<open>run_number\<close> and \<^verbatim>\<open>res_count\<close> as its state. The number of pages depends
  on the hit counts the service reports, so the loop takes fuel.
\<close>

fun root_query_loop :: "nat \<Rightarrow> service \<Rightarrow> pystr \<Rightarrow> pystr list \<Rightarrow> (pystr \<times> pystr list) list \<Rightarrow>
    doc list \<Rightarrow> pystr \<Rightarrow> nat \<Rightarrow> nat \<Rightarrow> (py_error + doc list) option" where
  "root_query_loop 0 search query id_list root_and_syn_parts res_info c_mark run_number n_res = None"
| "root_query_loop (Suc fuel) search query id_list root_and_syn_parts res_info c_mark run_number n_res =
     (if n_res \<le> 1000 then
        (let run_number' = run_number + 1
         in case search query (Some c_mark) of
              Inl e \<Rightarrow> Some (Inl SystemExit)
            | Inr res_text \<Rightarrow>
                (case parse_potential_result_content_for_relevant_info res_text id_list of
                   (potential_doc_info, c_mark', hit_count) \<Rightarrow>
                     (let correct_docs =
                            (if root_and_syn_parts \<noteq> []
                             then filter (\<lambda>doc. analyse_text_for_gene_in_list (Abstract doc) (Title doc)
                                                 root_and_syn_parts) potential_doc_info
                             else []);
                          res_info' = res_info @ correct_docs;
                          n_res' = n_res + length correct_docs
                      in if hit_count - int run_number' * 1000 \<le> 0 then Some (Inr res_info')
                         else root_query_loop fuel search query id_list root_and_syn_parts
                                res_info' c_mark' run_number' n_res')))
      else Some (Inr res_info))"

definition run_epmc_query_all_results :: "nat \<Rightarrow> service \<Rightarrow> pystr \<Rightarrow> nat \<Rightarrow> pystr list \<Rightarrow>
    (pystr \<times> pystr list) list \<Rightarrow> (py_error + doc list) option" where
  "run_epmc_query_all_results fuel search query n_res id_list root_and_syn_parts =
     root_query_loop fuel search query id_list root_and_syn_parts [] (py ''*'') 0 n_res"

subsection \<open>\<^verbatim>\<open>Query.run_queries_and_get_results\<close>\<close>

text \<open>\<^verbatim>\<open>ReadyThready.go\<close> applies the function to every element of the list and collects the
  results in order; an \<^verbatim>\<open>exit()\<close> in one of the calls ends the run.\<close>

fun run_all :: "('a \<Rightarrow> (py_error + 'b) option) \<Rightarrow> 'a list \<Rightarrow> (py_error + 'b list) option" where
  "run_all f [] = Some (Inr [])"
| "run_all f (x # xs) =
     (case f x of
        None \<Rightarrow> None
      | Some (Inl e) \<Rightarrow> Some (Inl e)
      | Some (Inr y) \<Rightarrow>
          (case run_all f xs of
             None \<Rightarrow> None
           | Some (Inl e) \<Rightarrow> Some (Inl e)
           | Some (Inr ys) \<Rightarrow> Some (Inr (y # ys))))"

definition run_epmc_query :: "service \<Rightarrow> pystr \<Rightarrow> (py_error + page) option" where
  "run_epmc_query search query =
     (case search query None of Inl e \<Rightarrow> Some (Inl SystemExit) | Inr res_text \<Rightarrow> Some (Inr res_text))"

definition run_queries_and_get_results :: "nat \<Rightarrow> service \<Rightarrow> queries_dict \<Rightarrow>
    (py_error + doc results_dict) option" where
  "run_queries_and_get_results fuel search queries_dict =
     (case run_all (run_epmc_query search) (qd_queries queries_dict) of
        None \<Rightarrow> None
      | Some (Inl e) \<Rightarrow> Some (Inl e)
      | Some (Inr result_text) \<Rightarrow>
          (case parse_actual_result_content_for_relevant_info result_text of
             (q_strings, doc_info, id_list) \<Rightarrow>
               (let n_res = length id_list
                in case (if qd_root_queries queries_dict \<noteq> [] \<and> n_res < 1000
                         then run_all (\<lambda>q. run_epmc_query_all_results fuel search q n_res id_list
                                              (qd_root_syns queries_dict))
                                (qd_root_queries queries_dict)
                         else Some (Inr [])) of
                     None \<Rightarrow> None
                   | Some (Inl e) \<Rightarrow> Some (Inl e)
                   | Some (Inr root_results) \<Rightarrow>
                       (let root_doc_info = concat root_results
                        in Some (Inr \<lparr> gene_key = qd_gene_key queries_dict,
                                       gene_name = qd_gene_name queries_dict,
                                       search_terms = qd_search_terms queries_dict,
                                       query_specific_syns = qd_query_specific_syns queries_dict,
                                       query_strings = q_strings,
                                       true_result_doc_info = doc_info @ root_doc_info,
                                       res_count = n_res + length root_doc_info \<rparr>)))))"

text \<open>
  A search for ABC2 whose packer produced one primary query and two root queries: the primary
  query finds document 1, and each root query finds document 2, whose title holds the list.
\<close>

definition primary_page :: page where
  "primary_page = \<lparr> hitcount = 1, querystring = py ''q'',
     result_tags = [mk_doc (py ''1'') (py ''ABC2 in flu'') (py ''a'') (py ''nothing'')],
     nextcursormark = None \<rparr>"

definition root_page :: page where
  "root_page = \<lparr> hitcount = 1, querystring = py ''r'',
     result_tags = [mk_doc (py ''2'') (py ''ABC1, 2 and 3'') (py ''b'') (py ''nothing'')],
     nextcursormark = None \<rparr>"

definition service_dup :: service where
  "service_dup query c_mark = (case c_mark of None \<Rightarrow> Inr primary_page | Some c \<Rightarrow> Inr root_page)"

definition queries_dup :: queries_dict where
  "queries_dup = \<lparr> qd_gene_key = py ''1'', qd_gene_name = py ''ABC2'', qd_search_terms = py ''flu'',
     qd_queries = [py ''q''], qd_root_syns = [(py ''ABC'', [py ''2''])],
     qd_root_queries = [py ''r1'', py ''r2''], qd_query_specific_syns = [py ''ABC2'', py ''ABC''] \<rparr>"

section \<open>More of \<^verbatim>\<open>str\<close> and \<^verbatim>\<open>re\<close>\<close>

definition endswith :: "pystr \<Rightarrow> pystr \<Rightarrow> bool" where
  "endswith s p = (length p \<le> length s \<and> drop (length s - length p) s = p)"

definition strip_ws :: "pystr \<Rightarrow> pystr" where
  "strip_ws s = rev (dropWhile is_space (rev (dropWhile is_space s)))"

definition lstrip_ws :: "pystr \<Rightarrow> pystr" where
  "lstrip_ws s = dropWhile is_space s"

text \<open>\<^verbatim>\<open>s.split()\<close>: the maximal runs of non-whitespace characters.\<close>

fun split_ws_acc :: "pystr \<Rightarrow> pystr \<Rightarrow> pystr list" where
  "split_ws_acc cur [] = (if cur = [] then [] else [cur])"
| "split_ws_acc cur (x # xs) =
     (if is_space x then (if cur = [] then split_ws_acc [] xs else cur # split_ws_acc [] xs)
      else split_ws_acc (cur @ [x]) xs)"

definition split_ws :: "pystr \<Rightarrow> pystr list" where
  "split_ws s = split_ws_acc [] s"

text \<open>\<^verbatim>\<open>s.split(" ")\<close>: the pieces between single spaces, empty ones included.\<close>

fun split_on_acc :: "nat \<Rightarrow> pystr \<Rightarrow> pystr \<Rightarrow> pystr list" where
  "split_on_acc sep cur [] = [cur]"
| "split_on_acc sep cur (x # xs) =
     (if x = sep then cur # split_on_acc sep [] xs else split_on_acc sep (cur @ [x]) xs)"

definition split_on :: "nat \<Rightarrow> pystr \<Rightarrow> pystr list" where
  "split_on sep s = split_on_acc sep [] s"

text \<open>\<^verbatim>\<open>s.replace(old, new)\<close> for a non-empty \<^verbatim>\<open>old\<close> (the source never passes an empty one).\<close>

function replace_str :: "pystr \<Rightarrow> pystr \<Rightarrow> pystr \<Rightarrow> pystr" where
  "replace_str old new [] = []"
| "replace_str old new (x # xs) =
     (if old \<noteq> [] \<and> startswith (x # xs) old
      then new @ replace_str old new (drop (length old) (x # xs))
      else x # replace_str old new xs)"
  by pat_completeness auto
termination
  by (relation "measure (\<lambda>(old, new, s). length s)") auto

text \<open>
  \<^verbatim>\<open>re.search\<close>: the first position from which the pattern matches, with the text before
  the match, the matched text, the text after it and the captures.
\<close>

fun search_from :: "rx \<Rightarrow> pystr \<Rightarrow> nat option \<Rightarrow> pystr \<Rightarrow> (pystr \<times> pystr \<times> pystr \<times> caps) option" where
  "search_from r pre prev rest =
     (case rx_run r prev rest [] of
        (pv, rest', c) # _ \<Rightarrow> Some (pre, take (length rest - length rest') rest, rest', c)
      | [] \<Rightarrow> (case rest of [] \<Rightarrow> None | x # xs \<Rightarrow> search_from r (pre @ [x]) (Some x) xs))"

declare search_from.simps [simp del]

definition re_search :: "rx \<Rightarrow> pystr \<Rightarrow> (pystr \<times> pystr \<times> pystr \<times> caps) option" where
  "re_search r s = search_from r [] None s"

definition re_fullmatch :: "rx \<Rightarrow> pystr \<Rightarrow> bool" where
  "re_fullmatch r s = list_ex (\<lambda>(pv, rest, c). rest = []) (rx_run r None s [])"

definition group :: "nat \<Rightarrow> caps \<Rightarrow> pystr" where
  "group n c = (case map_of c n of Some t \<Rightarrow> t | None \<Rightarrow> [])"

text \<open>
  \<^verbatim>\<open>re.finditer\<close>: the texts of the successive non-overlapping matches. After an empty
  match the scan moves on by one character.
\<close>

function finditer_from :: "rx \<Rightarrow> nat option \<Rightarrow> pystr \<Rightarrow> pystr list" where
  "finditer_from r prev rest =
     (case search_from r [] prev rest of
        None \<Rightarrow> []
      | Some (pre, m, rest', c) \<Rightarrow>
          (if length rest' < length rest
           then (if m = []
                 then m # (case drop (length pre) rest of
                             [] \<Rightarrow> []
                           | x # xs \<Rightarrow> (if length xs < length rest then finditer_from r (Some x) xs else []))
                 else m # finditer_from r (Some (last m)) rest')
           else (if m = [] \<and> rest \<noteq> []
                 then m # (case drop (length pre) rest of
                             [] \<Rightarrow> []
                           | x # xs \<Rightarrow> (if length xs < length rest then finditer_from r (Some x) xs else []))
                 else [m])))"
  by pat_completeness auto
termination
  by (relation "measure (\<lambda>(r, prev, rest). length rest)") auto

declare finditer_from.simps [simp del]

definition re_finditer :: "rx \<Rightarrow> pystr \<Rightarrow> pystr list" where
  "re_finditer r s = finditer_from r None s"

text \<open>
  \<^verbatim>\<open>re.sub(pattern, repl, string, count)\<close>: the leftmost non-overlapping matches are
  replaced, at most \<^verbatim>\<open>count\<close> of them when \<^verbatim>\<open>count\<close> is not 0. The replacement is a function
  of the matched text (for \<^verbatim>\<open>\1\<close>).
\<close>

function sub_from :: "rx \<Rightarrow> (pystr \<Rightarrow> pystr) \<Rightarrow> nat option \<Rightarrow> nat option \<Rightarrow> pystr \<Rightarrow> pystr" where
  "sub_from r repl left prev rest =
     (if left = Some 0 then rest
      else case search_from r [] prev rest of
             None \<Rightarrow> rest
           | Some (pre, m, rest', c) \<Rightarrow>
               (let left' = map_option (\<lambda>n. n - 1) left
                in if m \<noteq> [] \<and> length rest' < length rest
                   then pre @ repl m @ sub_from r repl left' (Some (last m)) rest'
                   else (case drop (length pre) rest of
                           [] \<Rightarrow> pre @ repl m
                         | x # xs \<Rightarrow>
                             (if length xs < length rest
                              then pre @ repl m @ [x] @ sub_from r repl left' (Some x) xs
                              else pre @ repl m @ x # xs))))"
  by pat_completeness auto
termination
  by (relation "measure (\<lambda>(r, repl, left, prev, rest). length rest)") auto

declare sub_from.simps [simp del]

definition re_sub :: "rx \<Rightarrow> (pystr \<Rightarrow> pystr) \<Rightarrow> pystr \<Rightarrow> nat \<Rightarrow> pystr" where
  "re_sub r repl s count = sub_from r repl (if count = 0 then None else Some count) None s"

section \<open>Text Variant Expander / Cleaner (\<^verbatim>\<open>get_synonyms.py\<close>)\<close>

text \<open>
  The methods of \<^verbatim>\<open>ExtractOLSSynonyms\<close> that clean and expand a list of synonyms. Where the
  source builds a \<^verbatim>\<open>set\<close> and turns it back into a list, Python does not fix the order of the
  result; the model takes the order of \<open>remdups\<close>, and the results stated for concrete
  lists below are the same sets in any other order.
  A synonym or a matched text that the source pastes into a pattern is matched as literal text.
\<close>

text \<open>The fields of an \<^verbatim>\<open>ExtractOLSSynonyms\<close> object.\<close>

record extractor =
  ex_original_term :: pystr
  ex_min_syn_len :: nat
  ex_n_threads :: nat
  ex_syns :: "pystr list"

subsection \<open>Tables (\<^verbatim>\<open>noisy_phrases.py\<close>, \<^verbatim>\<open>alternative_characters.py\<close>)\<close>

definition synonym_noise_indicators :: "pystr list" where
  "synonym_noise_indicators = map py
     ['':'', ''@'', '' email '', ''doi.org'', ''Wikipedia'', ''github'', ''TODO '', '' et al'',
      ''th ed.'', ''[WP]'', ''see also'', ''see article'', ''Editor node'', ''Editor note'',
      ''Taxon notes '', ''Consider merging'', ''mapping confirmed'', ''partof '',
      ''Requires expert input'', ''UMLS CUI'', ''synonyms'', '' doid '', ''doid/'', ''Xref '',
      ''Definition based on'', ''characterized by'', ''symptoms '',
      ''believed to be derived from'', ''We place '', ''mice have '', ''mouse has '',
      '' to form '', ''will be ceded'', ''use the term'', ''same name'',
      ''presumed but not proven'', ''occurs in'', ''are different'', ''term renamed'']"

definition greek_dict :: "(pystr \<times> pystr list) list" where
  "greek_dict =
     [(py ''alpha'', [[945], [120514], [120572]]),
      (py ''beta'', [[946], [976], [120573], [7517]]),
      (py ''gamma'', [[947], [120516], [8509], [120574]]),
      (py ''delta'', [[948], [120575], [7839]]),
      (py ''epsilon'', [[949], [603], [1013]]),
      (py ''zeta'', [[950], [120519]]),
      (py ''eta'', [[951]]),
      (py ''theta'', [[920], [977], [1138]]),
      (py ''iota'', [[921], [406]]),
      (py ''kappa'', [[922], [1008]]),
      (py ''lambda'', [[923]]),
      (py ''mu'', [[924], [181], [120583], [120641]]),
      (py ''nu'', [[925], [120584]]),
      (py ''xi'', [[958]]),
      (py ''omicron'', [[927]]),
      (py ''pi'', [[928], [982], [120587]]),
      (py ''rho'', [[929]]),
      (py ''sigma'', [[931], [962], [120590]]),
      (py ''tau'', [[932]]),
      (py ''upsilon'', [[933], [978]]),
      (py ''phi'', [[966], [981], [1060]]),
      (py ''chi'', [[967]]),
      (py ''psi'', [[968], [120569]]),
      (py ''omega'', [[937], [1121]])]"

text \<open>\<^verbatim>\<open>self.greek_char_list\<close>: the names, then the characters.\<close>

definition greek_char_list :: "pystr list" where
  "greek_char_list = map fst greek_dict @ concat (map snd greek_dict)"

subsection \<open>Character classes of the patterns\<close>

definition is_numeral_or_digit :: "nat \<Rightarrow> bool" where
  "is_numeral_or_digit c \<longleftrightarrow> c = 73 \<or> c = 88 \<or> c = 86 \<or> is_digit c"

definition is_A_to_z :: "nat \<Rightarrow> bool" where
  "is_A_to_z c \<longleftrightarrow> 65 \<le> c \<and> c \<le> 122"

definition is_letter :: "nat \<Rightarrow> bool" where
  "is_letter c \<longleftrightarrow> is_upper c \<or> is_lower c"

definition is_hyphen :: "nat \<Rightarrow> bool" where
  "is_hyphen c \<longleftrightarrow> [c] \<in> set hyphens"

definition digits :: rx where
  "digits = plus (Sym is_digit)"

definition spaces2 :: rx where
  "spaces2 = seqs [Sym is_space, Sym is_space, Star (Sym is_space)]"

subsection \<open>\<^verbatim>\<open>ExtractOLSSynonyms.word_search\<close>\<close>

text \<open>\<^verbatim>\<open>re.compile(fr'\b({re.escape(word)})\b', flags=re.IGNORECASE).search\<close>\<close>

definition word_search :: "pystr \<Rightarrow> pystr \<Rightarrow> bool" where
  "word_search word s = (re_search (seqs [Bnd, Grp 1 (lit True word), Bnd]) s \<noteq> None)"

subsection \<open>\<^verbatim>\<open>ExtractOLSSynonyms.remove_multiple_spaces\<close>\<close>

definition remove_multiple_spaces :: "pystr list \<Rightarrow> pystr list" where
  "remove_multiple_spaces syns0 = map (\<lambda>syn. re_sub spaces2 (\<lambda>m. py '' '') syn 0) syns0"

subsection \<open>\<^verbatim>\<open>ExtractOLSSynonyms.remove_noise_and_punctuation\<close>\<close>

text \<open>The replacements of the \<^verbatim>\<open>else\<close> branch, from \<^verbatim>\<open>EXACT\<close> to \<^verbatim>\<open>term.strip()\<close>.\<close>

definition clean_term :: "pystr \<Rightarrow> pystr" where
  "clean_term term0 =
     (let t1 = foldl (\<lambda>t old. replace_str old (py '' '') t) term0
                 [py ''EXACT'', py ''susceptibility to'', py ''working designation'', py ''_'',
                  py '','', py ''?'', [34], [8220], [8221]];
          t2 = foldl (\<lambda>t char. replace_str char (py '' '') t) t1 hyphens;
          t3 = (if re_search (seqs [chr False 40, Star dot, plus (Sym is_numeral_or_digit),
                                    Star dot, chr False 41]) t2 = None
                then re_sub (seqs [plus (Sym (\<lambda>c. c = 40 \<or> c = 91)), Lazy dot,
                                   plus (Sym (\<lambda>c. c = 41 \<or> c = 93))]) (\<lambda>m. []) t2 0
                else t2);
          t4 = replace_str (py '')'') (py '' '') (replace_str (py ''('') (py '' '') t3);
          t5 = re_sub (chr False 10) (\<lambda>m. py '' '') t4 0;
          t6 = re_sub spaces2 (\<lambda>m. py '' '') t5 0
      in strip_ws t6)"

text \<open>
  \<^verbatim>\<open>set(syn_list)\<close> is iterated in an order Python does not fix; the model takes the order
  of \<open>remdups\<close>.
\<close>

definition remove_noise_and_punctuation :: "extractor \<Rightarrow> pystr list \<Rightarrow> pystr \<Rightarrow> pystr list" where
  "remove_noise_and_punctuation self syn_list syn_type =
     ex_original_term self #
     concat (map (\<lambda>term0.
        if word_search (ex_original_term self) term0 then []
        else if \<not> startswith term0 (py ''GO:'') \<and>
                list_ex (\<lambda>noisy_term. contains (upper noisy_term) (upper term0))
                  synonym_noise_indicators then []
        else if contains (py ''.'') term0 \<and> re_search digits term0 = None then []
        else (let t = clean_term term0
              in if length t \<ge> ex_min_syn_len self
                 then (if syn_type = py ''tissue''
                       then (if re_match (seqs [Sym is_upper, digits, Eol]) t = None then [t] else [])
                       else [t])
                 else []))
       (remdups syn_list))"

subsection \<open>\<^verbatim>\<open>ExtractOLSSynonyms.remove_redundant_syns\<close>\<close>

definition sorted_on_phrase_length :: "pystr list \<Rightarrow> pystr list" where
  "sorted_on_phrase_length syns0 = map (join (py '' '')) (sort_key length (map split_ws syns0))"

definition find_redundant :: "pystr list \<Rightarrow> pystr list" where
  "find_redundant syns0 =
     foldl (\<lambda>redundant term0.
              if term0 \<in> set redundant then redundant
              else redundant @ filter (\<lambda>syn. syn \<noteq> term0 \<and> word_search term0 syn) syns0)
       [] (sorted_on_phrase_length syns0)"

definition remove_redundant_syns :: "pystr list \<Rightarrow> pystr list" where
  "remove_redundant_syns syns0 =
     foldl (\<lambda>s redundant_syn. if redundant_syn \<in> set s then remove1 redundant_syn s else s)
       syns0 (find_redundant syns0)"

subsection \<open>\<^verbatim>\<open>ExtractOLSSynonyms.expand_types\<close>, \<^verbatim>\<open>create_type_variations\<close>\<close>

definition create_type_variations :: "pystr \<Rightarrow> pystr \<Rightarrow> pystr list" where
  "create_type_variations type_phrase syn =
     (let tp = strip_ws type_phrase;
          intermediate = strip_ws (re_sub (lit True tp) (\<lambda>m. []) syn 0)
      in remove_multiple_spaces [intermediate @ py '' '' @ tp, tp @ py '' '' @ intermediate])"

definition type_word :: rx where
  "type_word = seqs [Sym (\<lambda>c. c = 84 \<or> c = 116), Sym (\<lambda>c. c = 89 \<or> c = 121),
                     Sym (\<lambda>c. c = 80 \<or> c = 112), Sym (\<lambda>c. c = 69 \<or> c = 101)]"

definition x_hyphen_type :: rx where
  "x_hyphen_type = Grp 1 (seqs [plus dot, Star (Sym is_space), Sym is_hyphen, Star (Sym is_space),
                                type_word])"

definition type_x :: rx where
  "type_x = seqs [Bol, Star dot,
       Grp 1 (seqs [type_word, Star (Sym (\<lambda>c. is_space c \<or> is_numeral_or_digit c)), Bnd,
                    opt (Sym is_letter), Bnd, Star (Sym (\<lambda>c. is_space c \<or> is_numeral_or_digit c)),
                    Star (alts (map (lit False) greek_char_list)),
                    Star (Sym (\<lambda>c. is_space c \<or> is_digit c))])]"

definition expand_types :: "pystr list \<Rightarrow> pystr list" where
  "expand_types syns0 =
     (let additional_syns = concat (map (\<lambda>syn.
            if contains (py ''type'') (lower syn)
            then (case re_search x_hyphen_type (lower syn) of
                    Some (pre, m, rest, c) \<Rightarrow> create_type_variations (group 1 c) syn
                  | None \<Rightarrow> [])
                 @ (case re_search type_x syn of
                      Some (pre, m, rest, c) \<Rightarrow>
                        (if lower (strip_ws (group 1 c)) \<noteq> py ''type''
                         then create_type_variations (group 1 c) syn else [])
                    | None \<Rightarrow> [])
            else []) syns0)
      in remdups (syns0 @ additional_syns))"

subsection \<open>\<^verbatim>\<open>ExtractOLSSynonyms.remove_chain_from_end\<close>\<close>

definition remove_chain_from_end :: "pystr list \<Rightarrow> pystr list" where
  "remove_chain_from_end syns0 =
     remdups (map (\<lambda>syn0.
        (let syn = strip_ws syn0
         in if endswith syn (py ''chain'')
            then strip_ws (re_sub (lit True (py ''chain'')) (\<lambda>m. []) syn 0)
            else if endswith syn (py ''chains'')
            then strip_ws (re_sub (lit True (py ''chains'')) (\<lambda>m. []) syn 0)
            else syn)) syns0)"

subsection \<open>\<^verbatim>\<open>ExtractOLSSynonyms.expand_greek_letters\<close>\<close>

text \<open>What one synonym and one entry of \<^verbatim>\<open>greek_dict\<close> add to \<^verbatim>\<open>sub_terms\<close> and
  \<^verbatim>\<open>syns_to_remove\<close>.\<close>

definition greek_entry :: "pystr \<Rightarrow> pystr \<times> pystr list \<Rightarrow> pystr list \<times> pystr list" where
  "greek_entry syn = (\<lambda>(key, value_list).
     (let noisy = (re_match (seqs [lit True key, opt (Sym is_space), digits]) syn \<noteq> None);
          by_name =
            (if \<not> noisy \<and>
                (re_match (seqs [Star dot, Bnd, lit True key, Bnd, Star dot]) syn \<noteq> None \<or>
                 re_match (seqs [Star dot, Sym (\<lambda>c. \<not> is_letter c), lit True key,
                                 Sym (\<lambda>c. \<not> is_letter c), Star dot]) syn \<noteq> None)
             then map (\<lambda>character. re_sub (lit True key) (\<lambda>m. character) syn 0) value_list
             else []);
          by_char = concat (map (\<lambda>char.
            if re_match (seqs [lit True char, opt (Sym is_space), digits]) syn = None
               \<and> contains (upper char) (upper syn)
            then map (\<lambda>other_char. replace_str char other_char syn) value_list
                 @ [replace_str char key syn]
            else []) value_list)
      in (by_name @ by_char, if noisy then [syn] else [])))"

definition expand_greek_letters :: "pystr list \<Rightarrow> pystr list" where
  "expand_greek_letters syns0 =
     (let found = concat (map (\<lambda>syn. map (greek_entry syn) greek_dict) syns0);
          sub_terms = concat (map fst found);
          syns_to_remove = concat (map snd found)
      in remdups (filter (\<lambda>i. i \<notin> set syns_to_remove) syns0 @ sub_terms))"

subsection \<open>\<^verbatim>\<open>ExtractOLSSynonyms.add_space_before_number\<close>\<close>

definition replace_hyphens :: "pystr \<Rightarrow> pystr" where
  "replace_hyphens syn = foldl (\<lambda>s hyp. re_sub (lit False hyp) (\<lambda>m. py '' '') s 0) syn hyphens"

definition number_in_gene :: rx where
  "number_in_gene = seqs [Star dot, plus (Sym (\<lambda>c. \<not> is_space c \<and> \<not> is_digit c)), digits,
       Star (Sym is_space), opt (Sym is_A_to_z), Star (Sym (\<lambda>c. is_space c \<or> is_digit c)), Bnd]"

definition fixed_format :: "pystr \<Rightarrow> bool" where
  "fixed_format syn \<longleftrightarrow>
     re_match (seqs [Sym (\<lambda>c. c = 67 \<or> c = 99), digits, lit False (py ''orf''), digits]) syn \<noteq> None
     \<or> re_match (seqs [lit False (py ''UNQ''), digits, lit False (py ''/PRO''), digits]) syn \<noteq> None
     \<or> re_match (seqs [lit False (py ''KIAA''), digits]) syn \<noteq> None"

text \<open>
  The \<^verbatim>\<open>while re.search(number_in_gene, space_variant)\<close> loop, returning what it appends to
  \<^verbatim>\<open>diff_spacing\<close>. It takes fuel.
\<close>

fun more_spacing :: "nat \<Rightarrow> pystr \<Rightarrow> nat \<Rightarrow> pystr list option" where
  "more_spacing 0 space_variant position = None"
| "more_spacing (Suc fuel) space_variant position =
     (if re_search number_in_gene space_variant \<noteq> None
      then (let position' = position + 1;
                space_variant' = re_sub (Grp 1 digits) (\<lambda>m. py '' '' @ m) space_variant position'
            in map_option (\<lambda>l. re_sub (plus (Sym is_space)) (\<lambda>m. py '' '') space_variant' 0 # l)
                 (more_spacing fuel space_variant' position'))
      else Some [])"

fun concat_options :: "'a list option list \<Rightarrow> 'a list option" where
  "concat_options [] = Some []"
| "concat_options (None # xs) = None"
| "concat_options (Some x # xs) = map_option (\<lambda>l. x @ l) (concat_options xs)"

definition space_variants :: "nat \<Rightarrow> pystr \<Rightarrow> pystr list option" where
  "space_variants fuel syn0 =
     (let syn = replace_hyphens syn0
      in if \<not> fixed_format syn
            \<and> \<not> re_fullmatch (seqs [Sym is_A_to_z, Sym is_digit, opt (Sym is_digit), opt (Sym is_digit)]) syn
            \<and> \<not> re_fullmatch (seqs [alts (map (lit False) [py ''CI'', py ''RR'', py ''AIM'', py ''FBS'', py ''IOP'']),
                                     digits]) syn
            \<and> \<not> length (split_on 32 syn) > 2
         then concat_options (map (\<lambda>res.
                concat_options (map (\<lambda>(n, match).
                   (let space_variant = re_sub (lit False match) (\<lambda>m. py '' '' @ match) syn (Suc n)
                    in map_option (\<lambda>l. space_variant # l) (more_spacing fuel space_variant (Suc n))))
                  (enumerate 0 (re_finditer digits res))))
              (re_finditer number_in_gene syn))
         else Some [])"

definition add_space_before_number :: "nat \<Rightarrow> pystr list \<Rightarrow> pystr list option" where
  "add_space_before_number fuel syns0 =
     map_option (\<lambda>diff_spacing. remdups (syns0 @ diff_spacing))
       (concat_options (map (space_variants fuel) syns0))"

subsection \<open>\<^verbatim>\<open>ExtractOLSSynonyms.remove_space_hyphen_before_number\<close>\<close>

definition spaced_number :: rx where
  "spaced_number = seqs [plus (Sym is_space), digits, Star (Sym is_space), opt (Sym is_A_to_z),
       Star (Sym (\<lambda>c. is_space c \<or> is_digit c)), Bnd]"

definition remove_space_hyphen_before_number :: "pystr list \<Rightarrow> pystr list" where
  "remove_space_hyphen_before_number syns0 =
     (let diff_spacing = concat (map (\<lambda>syn0.
            (let syn = replace_hyphens syn0
             in map (\<lambda>(n, res). re_sub (lit False res) (\<lambda>m. lstrip_ws res) syn (Suc n))
                  (enumerate 0 (re_finditer spaced_number syn)))) syns0)
      in remdups (syns0 @ diff_spacing))"

subsection \<open>\<^verbatim>\<open>greek_char_and_spacing_expansion\<close>, \<^verbatim>\<open>clean_syn_list\<close>\<close>

definition greek_char_and_spacing_expansion :: "nat \<Rightarrow> pystr list \<Rightarrow> pystr list option" where
  "greek_char_and_spacing_expansion fuel syns0 =
     map_option (\<lambda>s. remove_multiple_spaces (remove_space_hyphen_before_number s))
       (add_space_before_number fuel (expand_greek_letters syns0))"

text \<open>
  \<^verbatim>\<open>clean_syn_list\<close> returns the cleaned list when it was given one, and otherwise cleans
  \<^verbatim>\<open>self.syns\<close>, stores the result there and returns \<^verbatim>\<open>None\<close>. The result is the returned
  value and the object; the outer \<open>option\<close> is the fuel of the spacing loop.
\<close>

definition clean_syn_list :: "nat \<Rightarrow> extractor \<Rightarrow> pystr list \<Rightarrow> pystr \<Rightarrow>
    (pystr list option \<times> extractor) option" where
  "clean_syn_list fuel self syns_list syn_type =
     (let syns0 = (if syns_list \<noteq> [] then syns_list else ex_syns self);
          filtered_terms = remove_noise_and_punctuation self syns0 syn_type;
          syns1 = remove_redundant_syns filtered_terms;
          type_expanded_terms = expand_types syns1;
          removed_chain = remove_chain_from_end type_expanded_terms
      in case greek_char_and_spacing_expansion fuel removed_chain of
           None \<Rightarrow> None
         | Some exp_syns \<Rightarrow>
             (let syns2 = remove_redundant_syns exp_syns
              in if syns_list \<noteq> [] then Some (Some syns2, self)
                 else Some (None, self\<lparr>ex_syns := syns2\<rparr>)))"

definition ex0 :: "pystr \<Rightarrow> extractor" where
  "ex0 t = \<lparr> ex_original_term = t, ex_min_syn_len = 3, ex_n_threads = 0, ex_syns = [] \<rparr>"

subsection \<open>Notions for the statements about the cleaner\<close>

text \<open>The phrase that \<^verbatim>\<open>remove_redundant_syns\<close> searches for: \<^verbatim>\<open>" ".join(syn.split())\<close>.\<close>

definition norm_ws :: "pystr \<Rightarrow> pystr" where
  "norm_ws syn = join (py '' '') (split_ws syn)"

text \<open>One round of the loop of \<^verbatim>\<open>remove_redundant_syns\<close> that collects the redundant synonyms.\<close>

definition red_step :: "pystr list \<Rightarrow> pystr list \<Rightarrow> pystr \<Rightarrow> pystr list" where
  "red_step syns0 redundant term0 =
     (if term0 \<in> set redundant then redundant
      else redundant @ filter (\<lambda>syn. syn \<noteq> term0 \<and> word_search term0 syn) syns0)"

section \<open>Redundant-preprint elimination\<close>





text \<open>
  The filter compares \<^verbatim>\<open>prep_of\<close> with the identifiers of the list, and a document that is
  not a preprint carries the string \<^verbatim>\<open>"nothing"\<close> there. The theorem below therefore reads
  the identifiers as what the search service issues: none of them is that string, and the
  records of one identifier agree on what they are a preprint of. The next lemma shows what
  the first of these conditions excludes.
\<close>

lemma marker_as_identifier:
  "true_result_doc_info
     (remove_redundant_preprints
        [mk_results [mk_doc (py ''nothing'') (py ''t'') (py ''a'') (py ''nothing'')]] ! 0) = []"
  by (simp add: remove_redundant_preprints_def remove_redundant_preprints_dict_def
      non_redundant_docs_def mk_results_def mk_doc_def)



section \<open>Encoded lengths\<close>

lemma quote_plus_Nil [simp]: "quote_plus [] = []"
  by (simp add: quote_plus_def)

lemma quote_plus_Cons: "quote_plus (c # s) = quote_char c @ quote_plus s"
  by (simp add: quote_plus_def)

lemma quote_plus_append [simp]: "quote_plus (a @ b) = quote_plus a @ quote_plus b"
  by (simp add: quote_plus_def)

lemma enc_Nil [simp]: "enc [] = 0"
  by (simp add: enc_def)

lemma enc_append [simp]: "enc (a @ b) = enc a + enc b"
  by (simp add: enc_def)

lemma enc_nonneg [simp]: "0 \<le> enc s"
  by (simp add: enc_def)

lemma enc_safe_replicate: "always_safe c \<Longrightarrow> enc (replicate n c) = int n"
  by (induction n) (auto simp: enc_def quote_plus_Cons quote_char_def always_safe_def)

lemma enc_lits [simp]:
  "enc (py ''('') = 3" "enc (py '')'') = 3" "enc (py '' OR '') = 4" "enc (py '' & '') = 5"
  "enc (py ''TITLE:\"'') = 11" "enc (py ''\" OR KW:\"'') = 15"
  "enc (py ''\" OR ABSTRACT:\"'') = 21" "enc (py ''\"'') = 3"
  by (simp_all add: enc_def py_def quote_plus_def quote_char_def always_safe_def utf8_def
      percent_def)

lemma estimate_enc: "estimate_query_string_length q = (if q = [] then 0 else enc q + 12)"
  by (simp add: estimate_query_string_length_def enc_def)

lemma qstring_len_of_enc: "qstring_len_of q s = enc q + enc s * 3 + 62"
  by (simp add: qstring_len_of_def enc_def)

section \<open>The chunk loop\<close>

lemma chunk_loop_stuck:
  "syns \<noteq> [] \<Longrightarrow> qstring_len_of [] (syns ! 0) > chunk_size \<Longrightarrow>
   chunk_loop fuel chunk_size syns querystrings finished = None"
  by (induction fuel) (simp_all add: Let_def)

lemma enc_long_syn: "enc long_syn = 2500"
  unfolding long_syn_def by (subst enc_safe_replicate) (simp_all add: always_safe_def)

lemma startswith_long: "\<not> startswith long_syn (py ''(TITLE:'')"
  by (simp add: startswith_def long_syn_def py_def)

lemma genes_long_enc:
  "enc (add_abstract_title_and_join_synonyms [long_syn] True False) = 7556"
  by (simp add: add_abstract_title_and_join_synonyms_def field_query_def startswith_long
      enc_long_syn)

lemma genes_long_ne: "add_abstract_title_and_join_synonyms [long_syn] True False \<noteq> []"
  by (simp add: add_abstract_title_and_join_synonyms_def py_def)

text \<open>
  C2. The claim is that the chunk-building loop terminates and drops a synonym that alone
  exceeds the per-chunk budget. The source logs the warning for such a synonym but does not
  remove it from \<^verbatim>\<open>syns\<close>, so the \<^verbatim>\<open>while syns\<close> loop repeats in the same state:
  with a gene whose only synonym has 2500 letters, \<^verbatim>\<open>create_epmc_queries\<close> does not
  return, whatever the number of loop iterations allowed.
\<close>

theorem C2_chunk_loop_never_returns:
  "create_epmc_queries fuel st_long [] [] []
     (add_abstract_title_and_join_synonyms (gene_syns st_long) True False) [] = None"
proof -
  let ?g = "add_abstract_title_and_join_synonyms [long_syn] True False"
  let ?d = "make_len_dict [] [] [] ?g []"
  have d: "?d = [(Diseases, mk_entry []), (Tissues, mk_entry []), (Others, mk_entry []),
                 (Genes, \<lparr>seg_string = ?g, seg_len = 7568\<rparr>)]"
    by (simp add: make_len_dict_def mk_entry_def estimate_enc genes_long_ne genes_long_enc)
  have e0: "mk_entry [] = \<lparr>seg_string = [], seg_len = 0\<rparr>"
    by (simp add: mk_entry_def estimate_enc)
  have split: "split_long_queries fuel st_long ?d 7500 = None"
  proof (cases fuel)
    case 0
    then show ?thesis by (simp add: split_long_queries_def identify_long_queries_def)
  next
    case (Suc n)
    show ?thesis
    proof (cases n)
      case 0
      with Suc show ?thesis
        by (simp add: split_long_queries_def identify_long_queries_def d e0
            create_query_length_list_def move_longest_def is_longest_def)
    next
      case (Suc m)
      have id: "identify_long_queries fuel ?d 7500 =
        Some ([(Diseases, mk_entry []), (Tissues, mk_entry []), (Others, mk_entry [])],
              [(Genes, ?g)])"
        using Suc \<open>fuel = Suc n\<close>
        by (simp add: identify_long_queries_def d e0
            create_query_length_list_def move_longest_def is_longest_def)
      have stuck: "chunk_loop fuel 7370 [long_syn] [] False = None"
        by (rule chunk_loop_stuck) (simp_all add: qstring_len_of_enc enc_long_syn)
      show ?thesis
        by (simp add: split_long_queries_def id e0 create_query_length_list_def st_long_def stuck)
    qed
  qed
  have g: "gene_syns st_long = [long_syn]"
    by (simp add: st_long_def)
  show ?thesis
    by (simp add: create_epmc_queries_def Let_def g d e0 others_len_def
        create_query_length_list_def split [unfolded d e0])
qed

section \<open>Budget invariant\<close>

lemma join_snoc: "join sep (xs @ [x]) = (if xs = [] then x else join sep xs @ sep @ x)"
  by (induction sep xs rule: join.induct) auto

lemma join_eq_Nil: "join sep ys = [] \<Longrightarrow> ys \<noteq> [] \<Longrightarrow> hd ys = []"
  by (induction sep ys rule: join.induct) auto

lemma enc_join:
  "ys \<noteq> [] \<Longrightarrow> enc (join sep ys) = sum_list (map enc ys) + enc sep * (int (length ys) - 1)"
  by (induction sep ys rule: join.induct) (auto simp: algebra_simps)

lemma strip_chars_sublist: "\<exists>a b. s = a @ strip_chars cs s @ b"
proof -
  let ?P = "\<lambda>c. c \<in> set cs"
  let ?d = "dropWhile ?P s"
  have "s = takeWhile ?P s @ ?d" by simp
  moreover have "rev ?d = takeWhile ?P (rev ?d) @ dropWhile ?P (rev ?d)" by simp
  then have "?d = rev (dropWhile ?P (rev ?d)) @ rev (takeWhile ?P (rev ?d))"
    by (metis rev_append rev_rev_ident)
  ultimately have "s = takeWhile ?P s @ strip_chars cs s @ rev (takeWhile ?P (rev ?d))"
    by (simp add: strip_chars_def)
  then show ?thesis by blast
qed

lemma enc_strip_chars_le: "enc (strip_chars cs s) \<le> enc s"
proof -
  obtain a b where "s = a @ strip_chars cs s @ b" using strip_chars_sublist by blast
  then have "enc s = enc a + enc (strip_chars cs s) + enc b"
    by (metis enc_append add.assoc)
  then show ?thesis using enc_nonneg [of a] enc_nonneg [of b] by linarith
qed

lemma strip_chars_all:
  assumes "\<forall>x \<in> set m. x \<in> set cs"
  shows "strip_chars cs m = []"
proof -
  from assms have h: "dropWhile (\<lambda>c. c \<in> set cs) m = []"
    using dropWhile_eq_Nil_conv by blast
  show ?thesis unfolding strip_chars_def h by simp
qed

lemma strip_chars_wrapped:
  assumes "c \<in> set cs" "d \<in> set cs"
  shows "strip_chars cs (c # m @ [d]) = strip_chars cs m"
proof (cases "\<forall>x \<in> set m. x \<in> set cs")
  case True
  then have "strip_chars cs m = []" by (rule strip_chars_all)
  moreover from True assms have "\<forall>x \<in> set (c # m @ [d]). x \<in> set cs" by simp
  then have "strip_chars cs (c # m @ [d]) = []" by (rule strip_chars_all)
  ultimately show ?thesis by simp
next
  case False
  then obtain x where "x \<in> set m" "\<not> x \<in> set cs" by blast
  then have "dropWhile (\<lambda>c. c \<in> set cs) (m @ [d]) = dropWhile (\<lambda>c. c \<in> set cs) m @ [d]"
    by (rule dropWhile_append1)
  then show ?thesis using assms by (simp add: strip_chars_def)
qed

lemma enc_field_query: "enc (field_query True s) \<le> 50 + 3 * enc s"
proof (cases "startswith s (py ''(TITLE:'')")
  case True
  then have "enc (field_query True s) = enc (strip_chars (py ''()'') s)"
    by (simp add: field_query_def)
  moreover have "enc (strip_chars (py ''()'') s) \<le> enc s" by (rule enc_strip_chars_le)
  moreover have "0 \<le> enc s" by (rule enc_nonneg)
  ultimately show ?thesis by linarith
next
  case False
  then show ?thesis by (simp add: field_query_def)
qed

lemma add_abstract_form:
  "add_abstract_title_and_join_synonyms xs True False =
     py ''('' @ join (py '' OR '') (map (field_query True) xs) @ py '')''"
  by (simp add: add_abstract_title_and_join_synonyms_def)

lemma enc_add_abstract_step:
  assumes "i < length syns"
  shows "enc (add_abstract_title_and_join_synonyms (take (Suc i) syns) True False)
         \<le> (if i = 0 then 0 else enc (add_abstract_title_and_join_synonyms (take i syns) True False))
            + enc (syns ! i) * 3 + 62"
proof -
  have t: "take (Suc i) syns = take i syns @ [syns ! i]"
    using assms by (simp add: take_Suc_conv_app_nth)
  show ?thesis
  proof (cases "i = 0")
    case True
    from assms True obtain x xs where "syns = x # xs" by (cases syns) auto
    then show ?thesis using enc_field_query [of x] True
      by (simp add: add_abstract_form)
  next
    case False
    then have "take i syns \<noteq> []" using assms by auto
    then show ?thesis using enc_field_query [of "syns ! i"] False
      by (simp add: add_abstract_form t join_snoc)
  qed
qed


declare chunk_grow.simps [simp del]

lemma chunk_grow_inv:
  assumes "chunk_grow syns cs i qs ql fin = (i', qs', fin')"
    and "fin \<or> (i < length syns \<and> ql = qstring_len_of qs (syns ! i))"
    and "(i = 0 \<and> qs = []) \<or>
         (qs = add_abstract_title_and_join_synonyms (take i syns) True False \<and> 1 \<le> i \<and> enc qs \<le> cs)"
  shows "qs' = [] \<or> (\<exists>n. qs' = add_abstract_title_and_join_synonyms (take n syns) True False
                        \<and> enc qs' \<le> cs)"
  using assms
proof (induction syns cs i qs ql fin rule: chunk_grow.induct)
  case (1 syns cs i qs ql fin)
  let ?qs1 = "add_abstract_title_and_join_synonyms (take (i + 1) syns) True False"
  show ?case
  proof (cases "ql \<le> cs \<and> \<not> fin")
    case False
    with "1.prems"(1) have "qs' = qs"
      by (subst (asm) chunk_grow.simps) auto
    with "1.prems"(3) show ?thesis by auto
  next
    case True
    with "1.prems"(2) have i: "i < length syns" and ql: "ql = qstring_len_of qs (syns ! i)"
      by auto
    have "enc ?qs1 \<le> (if i = 0 then 0 else enc (add_abstract_title_and_join_synonyms (take i syns) True False))
            + enc (syns ! i) * 3 + 62"
      using enc_add_abstract_step [OF i] by simp
    also have "\<dots> \<le> ql"
      using "1.prems"(3) by (auto simp: ql qstring_len_of_enc)
    finally have bound: "enc ?qs1 \<le> cs" using True by linarith
    show ?thesis
    proof (cases "i + 1 < length syns")
      case True2: True
      from "1.prems"(1) True True2
      have "chunk_grow syns cs (i + 1) ?qs1 (qstring_len_of ?qs1 (syns ! (i + 1))) fin = (i', qs', fin')"
        by (subst (asm) chunk_grow.simps) (simp add: Let_def)
      then show ?thesis
        using "1.IH"(1) [OF True refl refl True2] True2 bound by auto
    next
      case False2: False
      from "1.prems"(1) True False2
      have "chunk_grow syns cs (i + 1) ?qs1 ql True = (i', qs', fin')"
        by (subst (asm) chunk_grow.simps) (simp add: Let_def)
      then show ?thesis
        using "1.IH"(2) [OF True refl refl False2] bound by auto
    qed
  qed
qed


lemma chunk_ok_Nil: "6 \<le> cs \<Longrightarrow> chunk_ok cs []"
  by (simp add: chunk_ok_def strip_chars_def)

lemma chunk_ok_add_abstract:
  assumes "enc (add_abstract_title_and_join_synonyms xs True False) \<le> cs"
  shows "chunk_ok cs (add_abstract_title_and_join_synonyms xs True False)"
proof -
  let ?m = "join (py '' OR '') (map (field_query True) xs)"
  have "strip_chars (py ''(,) '') (add_abstract_title_and_join_synonyms xs True False)
        = strip_chars (py ''(,) '') ?m"
    using strip_chars_wrapped [of 40 "py ''(,) ''" 41 ?m]
    by (simp add: add_abstract_form py_def)
  moreover have "enc (strip_chars (py ''(,) '') ?m) \<le> enc ?m"
    by (rule enc_strip_chars_le)
  moreover have "enc (add_abstract_title_and_join_synonyms xs True False) = 6 + enc ?m"
    by (simp add: add_abstract_form)
  ultimately show ?thesis using assms by (simp add: chunk_ok_def)
qed

lemma chunk_loop_ok:
  assumes "chunk_loop fuel cs syns qss fin = Some out"
    and "\<forall>c \<in> set qss. chunk_ok cs c"
  shows "\<forall>c \<in> set out. chunk_ok cs c"
  using assms
proof (induction fuel arbitrary: syns qss fin)
  case 0
  then show ?case by simp
next
  case (Suc fuel)
  show ?case
  proof (cases "syns = []")
    case True
    with Suc.prems show ?thesis by simp
  next
    case False
    show ?thesis
    proof (cases "qstring_len_of [] (syns ! 0) > cs")
      case True
      with False Suc.prems have "chunk_loop fuel cs syns qss fin = Some out"
        by (simp add: Let_def)
      then show ?thesis using Suc.prems(2) by (rule Suc.IH)
    next
      case le: False
      obtain i qs fin' where g: "chunk_grow syns cs 0 [] (qstring_len_of [] (syns ! 0)) fin = (i, qs, fin')"
        by (cases "chunk_grow syns cs 0 [] (qstring_len_of [] (syns ! 0)) fin") auto
      have "0 \<le> enc (syns ! 0)" by (rule enc_nonneg)
      moreover from le have "enc (syns ! 0) * 3 + 62 \<le> cs"
        by (simp add: qstring_len_of_enc)
      ultimately have cs62: "62 \<le> cs" by linarith
      have "qs = [] \<or> (\<exists>n. qs = add_abstract_title_and_join_synonyms (take n syns) True False
                        \<and> enc qs \<le> cs)"
        using chunk_grow_inv [OF g] False by auto
      then have "chunk_ok cs qs"
        using chunk_ok_Nil [of cs] chunk_ok_add_abstract cs62 by auto
      with Suc.prems(2) have all: "\<forall>c \<in> set (qss @ [qs]). chunk_ok cs c" by simp
      from False le g Suc.prems(1)
      have "chunk_loop fuel cs (if length syns \<ge> i then drop i syns else []) (qss @ [qs]) fin' = Some out"
        by (simp add: Let_def)
      then show ?thesis using all by (rule Suc.IH)
    qed
  qed
qed


lemma chunk_all_ok:
  assumes "chunk_all fuel st cs ls = Some (Inr chunks)"
  shows "length chunks = length ls \<and> (\<forall>xs \<in> set chunks. \<forall>c \<in> set xs. chunk_ok cs c)"
  using assms
proof (induction ls arbitrary: chunks)
  case Nil
  then show ?case by simp
next
  case (Cons kv rest)
  obtain k v where kv: "kv = (k, v)" by (cases kv)
  from Cons.prems kv obtain syns qs chunks' where
    s: "syns_of_key st k = Inr syns" and
    l: "chunk_loop fuel cs syns [] False = Some qs" and
    r: "chunk_all fuel st cs rest = Some (Inr chunks')" and
    c: "chunks = qs # chunks'"
    by (auto split: sum.splits option.splits)
  from chunk_loop_ok [OF l] have "\<forall>c \<in> set qs. chunk_ok cs c" by simp
  with Cons.IH [OF r] c show ?case by simp
qed

lemma product_lists_py_mem:
  "combo \<in> set (product_lists_py xss) \<Longrightarrow>
   length combo = length xss \<and> (\<forall>c \<in> set combo. \<exists>xs \<in> set xss. c \<in> set xs)"
proof (induction xss arbitrary: combo)
  case Nil
  then show ?case by simp
next
  case (Cons xs xss)
  from Cons.prems obtain x ys where x: "x \<in> set xs" and ys: "ys \<in> set (product_lists_py xss)"
    and c: "combo = x # ys" by auto
  from Cons.IH [OF ys] have "length ys = length xss"
    and "\<forall>c \<in> set ys. \<exists>zs \<in> set xss. c \<in> set zs" by auto
  with x c show ?case by auto
qed

lemma sum_enc_wrapped:
  "\<forall>c \<in> set combo. chunk_ok cs c \<Longrightarrow>
   sum_list (map enc (map (\<lambda>each. py ''('' @ strip_chars (py ''(,) '') each @ py '')'') combo))
     \<le> int (length combo) * cs"
proof (induction combo)
  case Nil
  then show ?case by simp
next
  case (Cons c combo)
  then have "enc (py ''('' @ strip_chars (py ''(,) '') c @ py '')'') \<le> cs"
    by (simp add: chunk_ok_def)
  moreover from Cons have
    "sum_list (map enc (map (\<lambda>each. py ''('' @ strip_chars (py ''(,) '') each @ py '')'') combo))
     \<le> int (length combo) * cs" by simp
  ultimately show ?case by (simp add: algebra_simps)
qed

lemma enc_combo_string:
  assumes "\<forall>c \<in> set combo. chunk_ok cs c" and "combo \<noteq> []"
  shows "enc (join (py '' & '') (map (\<lambda>each. py ''('' @ strip_chars (py ''(,) '') each @ py '')'') combo))
         \<le> int (length combo) * cs + 5 * (int (length combo) - 1)"
  using sum_enc_wrapped [OF assms(1)] assms(2) by (simp add: enc_join)


lemma estimate_nonneg: "0 \<le> estimate_query_string_length q"
  by (simp add: estimate_query_string_length_def)

lemma estimate_ge_enc: "enc q \<le> estimate_query_string_length q"
  by (simp add: estimate_enc)

lemma estimate_join_le:
  "\<forall>y \<in> set ys. y \<noteq> [] \<Longrightarrow>
   estimate_query_string_length (join (py '' & '') ys)
     \<le> sum_list (map estimate_query_string_length ys)"
proof (induction "py '' & ''" ys rule: join.induct)
  case 1
  then show ?case by (simp add: estimate_enc)
next
  case (2 x)
  then show ?case by simp
next
  case (3 x y ys)
  from 3 have ih: "estimate_query_string_length (join (py '' & '') (y # ys))
                   \<le> sum_list (map estimate_query_string_length (y # ys))" by simp
  from 3 have "y \<noteq> []" by simp
  then have "join (py '' & '') (y # ys) \<noteq> []"
    using join_eq_Nil [of "py '' & ''" "y # ys"] by auto
  then have e: "estimate_query_string_length (join (py '' & '') (y # ys))
                = enc (join (py '' & '') (y # ys)) + 12"
    by (simp add: estimate_enc)
  from 3 have "x \<noteq> []" by simp
  then have "estimate_query_string_length (join (py '' & '') (x # y # ys))
             = enc x + 5 + enc (join (py '' & '') (y # ys)) + 12"
    by (simp add: estimate_enc)
  moreover have "estimate_query_string_length x = enc x + 12"
    using \<open>x \<noteq> []\<close> by (simp add: estimate_enc)
  ultimately show ?case using ih e by simp
qed

lemma sum_estimate_filter_le:
  "sum_list (map estimate_query_string_length (filter P ps))
     \<le> sum_list (map estimate_query_string_length ps)"
proof (induction ps)
  case Nil
  then show ?case by simp
next
  case (Cons a ps)
  then show ?case using estimate_nonneg [of a] by auto
qed

lemma estimate_parts_le:
  "estimate_query_string_length (join (py '' & '') (filter non_empty_part ps))
     \<le> sum_list (map estimate_query_string_length ps)"
proof -
  have "\<forall>y \<in> set (filter non_empty_part ps). y \<noteq> []"
    by (simp add: non_empty_part_def)
  then have "estimate_query_string_length (join (py '' & '') (filter non_empty_part ps))
             \<le> sum_list (map estimate_query_string_length (filter non_empty_part ps))"
    by (rule estimate_join_le)
  also have "\<dots> \<le> sum_list (map estimate_query_string_length ps)"
    by (rule sum_estimate_filter_le)
  finally show ?thesis .
qed

lemma total_len_split: "total_len d = sum_list (create_query_length_list d) + others_sum d"
  by (induction d) (auto simp: total_len_def create_query_length_list_def others_sum_def)

lemma total_len_estimate:
  "entries_ok d \<Longrightarrow>
   total_len d = sum_list (map estimate_query_string_length (map (\<lambda>(k, e). seg_string e) d))"
  by (induction d) (auto simp: total_len_def entries_ok_def)

lemma consistent_le_total:
  assumes "entries_ok d"
  shows "enc (join (py '' & '') (filter non_empty_part (map (\<lambda>(k, e). seg_string e) d)))
         \<le> total_len d"
proof -
  let ?c = "join (py '' & '') (filter non_empty_part (map (\<lambda>(k, e). seg_string e) d))"
  have "enc ?c \<le> estimate_query_string_length ?c" by (rule estimate_ge_enc)
  also have "\<dots> \<le> sum_list (map estimate_query_string_length (map (\<lambda>(k, e). seg_string e) d))"
    by (rule estimate_parts_le)
  also have "\<dots> = total_len d" using assms by (simp add: total_len_estimate)
  finally show ?thesis .
qed

lemma filter_others_not_longest:
  "filter (\<lambda>(k, e). k = Others) (filter (\<lambda>x. \<not> is_longest ll x) d)
   = filter (\<lambda>(k, e). k = Others) d"
  by (induction d) (auto simp: is_longest_def)

lemma move_longest_inv:
  assumes "move_longest d l = (d', l')"
  shows "(entries_ok d \<longrightarrow> entries_ok d') \<and> others_sum d' = others_sum d"
proof -
  let ?ll = "create_query_length_list d"
  from assms have d': "d' = filter (\<lambda>x. \<not> is_longest ?ll x) d"
    by (simp add: move_longest_def Let_def)
  have "others_sum d' = others_sum d"
    unfolding d' others_sum_def by (simp only: filter_others_not_longest)
  moreover have "entries_ok d \<longrightarrow> entries_ok d'" by (auto simp: d' entries_ok_def)
  ultimately show ?thesis by simp
qed

lemma identify_loop_inv:
  assumes "identify_loop fuel d l m = Some (d', l')" and "entries_ok d"
  shows "entries_ok d' \<and> others_sum d' = others_sum d"
  using assms
proof (induction fuel arbitrary: d l)
  case 0
  then show ?case by simp
next
  case (Suc fuel)
  show ?case
  proof (cases "sum_list (create_query_length_list d) > m - 500")
    case False
    with Suc.prems show ?thesis by simp
  next
    case True
    obtain d1 l1 where mv: "move_longest d l = (d1, l1)" by (cases "move_longest d l")
    with True Suc.prems(1) have run: "identify_loop fuel d1 l1 m = Some (d', l')" by simp
    from move_longest_inv [OF mv] Suc.prems(2)
    have ok1: "entries_ok d1" and os: "others_sum d1 = others_sum d" by auto
    from Suc.IH [OF run ok1] os show ?thesis by simp
  qed
qed


lemma mult_div_le_int:
  assumes "0 < n"
  shows "n * (a div n) \<le> (a::int)"
proof -
  from assms have "0 \<le> a mod n" by simp
  moreover have "n * (a div n) = a - a mod n" by (simp add: minus_mod_eq_mult_div)
  ultimately show ?thesis by linarith
qed

lemma split_long_queries_bound:
  assumes run: "split_long_queries fuel st ld L = Some (Inr (sd, combos))"
    and ok: "entries_ok ld" and mem: "combo \<in> set combos"
  shows "entries_ok sd \<and> others_sum sd = others_sum ld \<and> combo \<noteq> [] \<and>
         enc (join (py '' & '') (map (\<lambda>each. py ''('' @ strip_chars (py ''(,) '') each @ py '')'') combo))
           + total_len sd \<le> L + others_sum ld - 95 * int (length combo)"
proof -
  from run obtain sd0 ls where id: "identify_long_queries fuel ld L = Some (sd0, ls)"
    by (auto simp: split_long_queries_def split: option.splits)
  define T where "T = sum_list (create_query_length_list sd0) + int (length sd0) * 10"
  define cs where "cs = ((L - T) div int (length ls)) - 100"
  from run id have ne: "ls \<noteq> []"
    by (auto simp: split_long_queries_def Let_def split: if_splits)
  from run id ne obtain chunks where
    ch: "chunk_all fuel st cs ls = Some (Inr chunks)" and
    sd: "sd = sd0" and cb: "combos = product_lists_py chunks"
    by (auto simp: split_long_queries_def Let_def T_def cs_def split: option.splits sum.splits)
  from id ok have inv: "entries_ok sd0" "others_sum sd0 = others_sum ld"
    using identify_loop_inv [of fuel ld "[]" L sd0 ls] by (auto simp: identify_long_queries_def)
  from chunk_all_ok [OF ch] have len: "length chunks = length ls"
    and allok: "\<forall>xs \<in> set chunks. \<forall>c \<in> set xs. chunk_ok cs c" by auto
  from product_lists_py_mem [of combo chunks] mem cb
  have lc: "length combo = length chunks" and cin: "\<forall>c \<in> set combo. \<exists>xs \<in> set chunks. c \<in> set xs"
    by auto
  from cin allok have cok: "\<forall>c \<in> set combo. chunk_ok cs c" by blast
  from lc len ne have cne: "combo \<noteq> []" by auto
  let ?n = "int (length combo)"
  have npos: "0 < ?n" using cne by simp
  have n: "?n = int (length ls)" using lc len by simp
  define E where "E = enc (join (py '' & '')
      (map (\<lambda>each. py ''('' @ strip_chars (py ''(,) '') each @ py '')'') combo))"
  define X where "X = ?n * ((L - T) div ?n)"
  define Y where "Y = ?n * cs"
  have "E \<le> Y + 5 * (?n - 1)"
    unfolding E_def Y_def by (rule enc_combo_string [OF cok cne])
  moreover have "Y = X - 100 * ?n"
    by (simp add: X_def Y_def cs_def n algebra_simps)
  moreover have "X \<le> L - T"
    unfolding X_def by (rule mult_div_le_int [OF npos])
  moreover have "total_len sd0 = sum_list (create_query_length_list sd0) + others_sum ld"
    using total_len_split [of sd0] inv(2) by simp
  moreover have "sum_list (create_query_length_list sd0) \<le> T"
    by (simp add: T_def)
  ultimately have "E + total_len sd0 \<le> L + others_sum ld - 95 * ?n"
    by (simp add: algebra_simps)
  then have "enc (join (py '' & '') (map (\<lambda>each. py ''('' @ strip_chars (py ''(,) '') each @ py '')'') combo))
           + total_len sd0 \<le> L + others_sum ld - 95 * ?n"
    by (simp add: E_def)
  with inv cne sd show ?thesis by simp
qed

lemma seg_len_mk_entry [simp]: "seg_len (mk_entry s) = estimate_query_string_length s"
  by (simp add: mk_entry_def)

lemma seg_string_mk_entry [simp]: "seg_string (mk_entry s) = s"
  by (simp add: mk_entry_def)

lemma make_len_dict_kwds_others:
  "filter (\<lambda>(k, e). k = Others) (map (\<lambda>(i, kwd). (Kwd (Suc i), mk_entry kwd)) xs) = []"
  by (induction xs) auto

lemma entries_ok_make_len_dict: "entries_ok (make_len_dict d t o' g kwds)"
  by (auto simp: entries_ok_def make_len_dict_def)

lemma others_sum_make_len_dict:
  "others_sum (make_len_dict d t o' g kwds) = estimate_query_string_length o'"
  by (simp add: others_sum_def make_len_dict_def make_len_dict_kwds_others)

lemma others_len_make_len_dict:
  "others_len (make_len_dict d t o' g kwds) = estimate_query_string_length o'"
  by (simp add: others_len_def make_len_dict_def)

lemma total_len_kwds:
  "sum_list (map (\<lambda>(k, e). seg_len e) (map (\<lambda>(i, kwd). (Kwd (Suc i), mk_entry kwd)) (enumerate n kwds)))
   = sum_list (map estimate_query_string_length kwds)"
  by (induction kwds arbitrary: n) auto

lemma total_len_make_len_dict:
  "total_len (make_len_dict d t o' g kwds)
   = sum_list (map estimate_query_string_length ([g, d, t, o'] @ kwds))"
  unfolding total_len_def make_len_dict_def map_append sum_list_append total_len_kwds
  by simp


text \<open>
  C1. Every query string that \<^verbatim>\<open>create_epmc_queries\<close> returns has an estimated encoded
  length (\<^verbatim>\<open>estimate_query_string_length\<close>, the program's own estimator) of at most 7500,
  whatever the segments, the synonym lists behind them and the settings string are.
\<close>

theorem C1_budget_invariant:
  assumes run: "create_epmc_queries fuel st diseases tissues others genes kwds = Some (Inr queries)"
    and q: "q \<in> set queries"
  shows "estimate_query_string_length q \<le> 7500"
proof -
  let ?ld = "make_len_dict diseases tissues others genes kwds"
  let ?L = "7500 - others_len ?ld"
  have ok: "entries_ok ?ld" by (rule entries_ok_make_len_dict)
  have os: "others_sum ?ld = others_len ?ld"
    by (simp add: others_sum_make_len_dict others_len_make_len_dict)
  show ?thesis
  proof (cases "sum_list (create_query_length_list ?ld) + 20 > ?L")
    case False
    define X where "X = join (py '' & '')
        (filter non_empty_part ([genes, diseases, tissues, others] @ kwds))"
    have "create_epmc_queries fuel st diseases tissues others genes kwds = Some (Inr [X])"
      unfolding create_epmc_queries_def Let_def X_def using False by (simp only: if_False)
    with run have "queries = [X]" by simp
    with q have qe: "q = join (py '' & '')
        (filter non_empty_part ([genes, diseases, tissues, others] @ kwds))"
      by (simp add: X_def)
    have "estimate_query_string_length q
          \<le> sum_list (map estimate_query_string_length ([genes, diseases, tissues, others] @ kwds))"
      unfolding qe by (rule estimate_parts_le)
    also have "\<dots> = total_len ?ld" by (simp only: total_len_make_len_dict)
    also have "\<dots> = sum_list (create_query_length_list ?ld) + others_len ?ld"
      using total_len_split [of ?ld] os by simp
    finally show ?thesis using False by linarith
  next
    case True
    with run obtain sd combos where
      sp: "split_long_queries fuel st ?ld ?L = Some (Inr (sd, combos))" and
      qs: "queries = map (\<lambda>combo.
             join (py '' & '') (map (\<lambda>each. py ''('' @ strip_chars (py ''(,) '') each @ py '')'') combo)
               @ py '' & '' @ join (py '' & '') (filter non_empty_part (map (\<lambda>(key, e). seg_string e) sd)))
             combos"
      by (auto simp: create_epmc_queries_def Let_def split: option.splits sum.splits)
    from q qs obtain combo where cm: "combo \<in> set combos" and
      qe: "q = join (py '' & '') (map (\<lambda>each. py ''('' @ strip_chars (py ''(,) '') each @ py '')'') combo)
               @ py '' & '' @ join (py '' & '') (filter non_empty_part (map (\<lambda>(key, e). seg_string e) sd))"
      by auto
    define E where "E = enc (join (py '' & '')
      (map (\<lambda>each. py ''('' @ strip_chars (py ''(,) '') each @ py '')'') combo))"
    define C where "C = enc (join (py '' & '') (filter non_empty_part (map (\<lambda>(key, e). seg_string e) sd)))"
    from split_long_queries_bound [OF sp ok cm]
    have sdok: "entries_ok sd" and cne: "combo \<noteq> []"
      and b: "E + total_len sd \<le> ?L + others_sum ?ld - 95 * int (length combo)"
      by (simp_all add: E_def)
    have "C \<le> total_len sd" unfolding C_def by (rule consistent_le_total [OF sdok])
    moreover have "1 \<le> int (length combo)" using cne by (cases combo) auto
    moreover have "enc q = E + 5 + C" by (simp add: qe E_def C_def)
    moreover have "estimate_query_string_length q \<le> enc q + 12" by (simp add: estimate_enc)
    ultimately show ?thesis using b os by linarith
  qed
qed


theorem C1_budget_invariant_witness:
  "create_epmc_queries 1 st_small
     (add_abstract_title_and_join_synonyms (disease_syns st_small) True False) []
     (py ''SRC:MED'')
     (add_abstract_title_and_join_synonyms (gene_syns st_small) True False) []
   = Some (Inr [q_small])
   \<and> estimate_query_string_length q_small \<le> 7500"
proof -
  have run: "create_epmc_queries 1 st_small
     (add_abstract_title_and_join_synonyms (disease_syns st_small) True False) []
     (py ''SRC:MED'')
     (add_abstract_title_and_join_synonyms (gene_syns st_small) True False) []
   = Some (Inr [q_small])"
    by code_simp
  have "q_small \<in> set [q_small]" by simp
  from C1_budget_invariant [OF run this] run show ?thesis by simp
qed

section \<open>Indirect-List Matcher\<close>

lemmas rx_defs = list_pattern_def hyph_or_space_def hyphens_def opt_def plus_def dot_def chr_def
  is_digit_def is_space_def is_lower_def is_upper_def is_word_def lower_def lower_char_def py_def
  re_match_def is_boundary_def

text \<open>
  The example of the specification, with the list as the whole title: the matcher answers
  True for root \<^verbatim>\<open>ABC\<close> and remainder \<^verbatim>\<open>2\<close>.
\<close>

lemma list_as_whole_title:
  "analyse_text_for_gene_in_list (py ''Some abstract.'') (py ''ABC1, 2 and 3'')
     [(py ''ABC'', [py ''2''])] = True"
  by (simp add: analyse_text_for_gene_in_list_def startswith_def rx_defs)

text \<open>
  C9. The claim is that the matcher returns True for every document whose title contains
  the text \<^verbatim>\<open>ABC1, 2 and 3\<close>. The source tests the text with \<^verbatim>\<open>re.match\<close> and a pattern
  that starts with \<^verbatim>\<open>.*\<close>; without \<^verbatim>\<open>re.DOTALL\<close> the dot does not match a line break, so
  the list is only found on the first line of the text. A title with a line break before
  the list is answered False.
\<close>

theorem C9_list_after_line_break:
  "analyse_text_for_gene_in_list (py ''Some abstract.'')
     (py ''Transporters:'' @ [10] @ py ''ABC1, 2 and 3'')
     [(py ''ABC'', [py ''2''])] = False"
  by (simp add: analyse_text_for_gene_in_list_def startswith_def rx_defs)

section \<open>Deduplication\<close>

lemma dict_set_keys: "map fst (dict_set k v d) = (if k \<in> fst ` set d then map fst d else map fst d @ [k])"
  by (induction d) force+

lemma distinct_dict_set: "distinct (map fst d) \<Longrightarrow> distinct (map fst (dict_set k v d))"
  by (simp add: dict_set_keys)

lemma dict_set_key_value: "\<forall>(k', v') \<in> set d. k' = f v' \<Longrightarrow> \<forall>(k', v') \<in> set (dict_set (f v) v d). k' = f v'"
  by (induction d) (auto split: if_splits)

lemma fold_dict_inv:
  "distinct (map fst d) \<Longrightarrow> \<forall>(k', v') \<in> set d. k' = ID v' \<Longrightarrow>
   distinct (map fst (foldl (\<lambda>d v. dict_set (ID v) v d) d docs))
   \<and> (\<forall>(k', v') \<in> set (foldl (\<lambda>d v. dict_set (ID v) v d) d docs). k' = ID v')"
proof (induction docs arbitrary: d)
  case Nil
  then show ?case by simp
next
  case (Cons a docs)
  have "distinct (map fst (dict_set (ID a) a d))"
    using Cons.prems(1) by (rule distinct_dict_set)
  moreover have "\<forall>(k', v') \<in> set (dict_set (ID a) a d). k' = ID v'"
    using Cons.prems(2) by (rule dict_set_key_value)
  ultimately show ?case using Cons.IH by simp
qed

lemma unique_by_id_distinct: "distinct (map ID (unique_by_id docs))"
proof -
  let ?d = "foldl (\<lambda>d v. dict_set (ID v) v d) [] docs"
  from fold_dict_inv [of "[]" docs]
  have d: "distinct (map fst ?d)" and kv: "\<forall>(k', v') \<in> set ?d. k' = ID v'" by auto
  from kv have "map (\<lambda>x. ID (snd x)) ?d = map fst ?d"
    by (intro map_cong refl) auto
  then have "map ID (unique_by_id docs) = map fst ?d"
    by (simp only: unique_by_id_def map_map comp_def)
  with d show ?thesis by simp
qed

lemma root_doc_matches:
  "analyse_text_for_gene_in_list (py ''b'') (py ''ABC1, 2 and 3'') [(py ''ABC'', [py ''2''])]"
  by (simp add: analyse_text_for_gene_in_list_def startswith_def rx_defs)

lemma primary_only_distinct:
  assumes "qd_root_queries qd = []"
    and "run_queries_and_get_results fuel search qd = Some (Inr r)"
  shows "distinct (map ID (true_result_doc_info r))"
proof -
  from assms have "\<exists>result_text.
    true_result_doc_info r = fst (snd (parse_actual_result_content_for_relevant_info result_text))"
    apply (auto simp: run_queries_and_get_results_def Let_def
        split: option.splits sum.splits prod.splits)
    apply (metis fst_conv snd_conv)
    done
  then obtain result_text where
    "true_result_doc_info r = fst (snd (parse_actual_result_content_for_relevant_info result_text))"
    by blast
  then show ?thesis
    by (simp add: parse_actual_result_content_for_relevant_info_def unique_by_id_distinct
        split: prod.splits)
qed

text \<open>
  C3. The claim is that the final document list of an entity holds one record per document
  identifier. The primary results are made unique by identifier over all queries
  (\<open>primary_only_distinct\<close>); the results of a root query are made unique within each page
  and against the identifiers of the primary results only, and the lists of the root queries
  are concatenated as they are. When two root queries return the same document, it is in
  the final list twice.
\<close>

theorem C3_root_queries_duplicate:
  "map_option (map_sum id (\<lambda>r. map ID (true_result_doc_info r)))
     (run_queries_and_get_results 1 service_dup queries_dup)
   = Some (Inr [py ''1'', py ''2'', py ''2''])"
proof -
  have root: "run_epmc_query_all_results (Suc 0) service_dup q (Suc 0) [py ''1''] [(py ''ABC'', [py ''2''])]
      = Some (Inr [mk_doc (py ''2'') (py ''ABC1, 2 and 3'') (py ''b'') (py ''nothing'')])" for q
    using root_doc_matches
    by (simp add: run_epmc_query_all_results_def service_dup_def root_page_def
        parse_potential_result_content_for_relevant_info_def unique_by_id_def mk_doc_def py_def)
  have prim: "parse_actual_result_content_for_relevant_info [primary_page]
      = (py ''1: q'', [mk_doc (py ''1'') (py ''ABC2 in flu'') (py ''a'') (py ''nothing'')], [py ''1''])"
    by (simp add: parse_actual_result_content_for_relevant_info_def primary_page_def
        unique_by_id_def mk_doc_def str_nat.simps py_def)
  show ?thesis
    by (simp add: run_queries_and_get_results_def run_epmc_query_def queries_dup_def
        service_dup_def [of _ None] prim root mk_doc_def)
qed

section \<open>Redundancy elimination\<close>

lemma set_sorted_on_phrase_length:
  "set (sorted_on_phrase_length syns0) = norm_ws ` set syns0"
  by (auto simp: sorted_on_phrase_length_def norm_ws_def)

lemma find_redundant_fold: "find_redundant syns0 = foldl (red_step syns0) [] (sorted_on_phrase_length syns0)"
proof -
  have "red_step syns0 = (\<lambda>redundant term0.
          if term0 \<in> set redundant then redundant
          else redundant @ filter (\<lambda>syn. syn \<noteq> term0 \<and> word_search term0 syn) syns0)"
    by (intro ext) (simp add: red_step_def)
  then show ?thesis by (simp add: find_redundant_def)
qed

lemma red_step_mono: "set red \<subseteq> set (foldl (red_step syns0) red ts)"
proof (induction ts arbitrary: red)
  case Nil show ?case by simp
next
  case (Cons t ts)
  have "set red \<subseteq> set (red_step syns0 red t)" by (auto simp: red_step_def)
  with Cons [of "red_step syns0 red t"] show ?case by auto
qed

lemma red_step_complete:
  "t \<in> set ts \<Longrightarrow> t \<notin> set (foldl (red_step syns0) red ts) \<Longrightarrow>
   syn \<in> set syns0 \<Longrightarrow> syn \<noteq> t \<Longrightarrow> word_search t syn \<Longrightarrow>
   syn \<in> set (foldl (red_step syns0) red ts)"
proof (induction ts arbitrary: red)
  case Nil then show ?case by simp
next
  case (Cons a ts)
  show ?case
  proof (cases "t = a")
    case True
    have "t \<notin> set red" using Cons.prems(2) red_step_mono [of red syns0 "a # ts"] by auto
    then have "syn \<in> set (red_step syns0 red a)"
      using True Cons.prems by (simp add: red_step_def)
    then show ?thesis using red_step_mono [of "red_step syns0 red a" syns0 ts] by auto
  next
    case False
    then have "t \<in> set ts" using Cons.prems(1) by simp
    from Cons.IH [OF this, of "red_step syns0 red a"] Cons.prems show ?thesis by simp
  qed
qed

lemma red_step_all_copies:
  "\<forall>b \<in> set red. count_list syns0 b \<le> count_list red b \<Longrightarrow>
   \<forall>b \<in> set (foldl (red_step syns0) red ts). count_list syns0 b \<le> count_list (foldl (red_step syns0) red ts) b"
proof (induction ts arbitrary: red)
  case Nil then show ?case by simp
next
  case (Cons a ts)
  have "\<forall>b \<in> set (red_step syns0 red a). count_list syns0 b \<le> count_list (red_step syns0 red a) b"
  proof
    fix b assume b: "b \<in> set (red_step syns0 red a)"
    show "count_list syns0 b \<le> count_list (red_step syns0 red a) b"
    proof (cases "b \<in> set red")
      case True
      then show ?thesis using Cons.prems by (auto simp: red_step_def)
    next
      case False
      with b have "b \<noteq> a \<and> word_search a b" and "a \<notin> set red"
        by (auto simp: red_step_def split: if_splits)
      then have "count_list (filter (\<lambda>syn. syn \<noteq> a \<and> word_search a syn) syns0) b = count_list syns0 b"
        by (induction syns0) auto
      then show ?thesis using \<open>a \<notin> set red\<close> by (simp add: red_step_def)
    qed
  qed
  from Cons.IH [OF this] show ?case by simp
qed

lemma find_redundant_all_copies:
  "b \<in> set (find_redundant syns0) \<Longrightarrow> count_list syns0 b \<le> count_list (find_redundant syns0) b"
  using red_step_all_copies [of "[]" syns0 "sorted_on_phrase_length syns0"]
  by (simp add: find_redundant_fold)

lemma count_list_remove1:
  "count_list (remove1 r s) b = (if r = b then count_list s b - 1 else count_list s b)"
  by (induction s) auto

lemma count_list_removal:
  "count_list (foldl (\<lambda>s r. if r \<in> set s then remove1 r s else s) s red) b
     = count_list s b - count_list red b"
proof (induction red arbitrary: s)
  case Nil show ?case by simp
next
  case (Cons r red)
  have "count_list (if r \<in> set s then remove1 r s else s) b
        = (if r = b then count_list s b - 1 else count_list s b)"
    by (auto simp: count_list_remove1 count_list_0_iff)
  then show ?case using Cons.IH [of "if r \<in> set s then remove1 r s else s"] by auto
qed

lemma count_remove_redundant_syns:
  "count_list (remove_redundant_syns syns0) b = count_list syns0 b - count_list (find_redundant syns0) b"
  by (simp add: remove_redundant_syns_def count_list_removal)

lemma in_set_count: "x \<in> set xs \<longleftrightarrow> 0 < count_list xs x"
  using count_list_0_iff [of xs x] by auto

lemma remove_redundant_syns_member:
  "b \<in> set (remove_redundant_syns syns0) \<longleftrightarrow> b \<in> set syns0 \<and> b \<notin> set (find_redundant syns0)"
proof
  assume "b \<in> set (remove_redundant_syns syns0)"
  then have c: "count_list (find_redundant syns0) b < count_list syns0 b"
    by (simp add: in_set_count count_remove_redundant_syns)
  then have "b \<in> set syns0" by (simp add: in_set_count)
  moreover have "b \<notin> set (find_redundant syns0)"
    using c find_redundant_all_copies [of b syns0] by auto
  ultimately show "b \<in> set syns0 \<and> b \<notin> set (find_redundant syns0)" by simp
next
  assume "b \<in> set syns0 \<and> b \<notin> set (find_redundant syns0)"
  then show "b \<in> set (remove_redundant_syns syns0)"
    by (simp add: in_set_count [of b "remove_redundant_syns syns0"] count_remove_redundant_syns
        count_list_0_iff) (simp add: in_set_count)
qed

lemma remove_redundant_syns_normalised:
  assumes t: "t \<in> set (remove_redundant_syns syns0)"
    and s: "s \<in> set (remove_redundant_syns syns0)"
    and "s \<noteq> t" and n: "norm_ws t = t"
  shows "\<not> word_search t s"
proof
  assume ws: "word_search t s"
  from t have t1: "t \<in> set syns0" "t \<notin> set (find_redundant syns0)"
    by (simp_all add: remove_redundant_syns_member)
  from s have s1: "s \<in> set syns0" "s \<notin> set (find_redundant syns0)"
    by (simp_all add: remove_redundant_syns_member)
  from t1(1) n have "t \<in> set (sorted_on_phrase_length syns0)"
    by (auto simp: set_sorted_on_phrase_length image_iff intro: bexI [of _ t])
  from red_step_complete [OF this, of syns0 "[]" s] t1(2) s1 \<open>s \<noteq> t\<close> ws
  show False by (simp add: find_redundant_fold)
qed

lemma red_step_nothing:
  assumes "\<forall>t \<in> set ts. \<forall>syn \<in> set syns0. syn \<noteq> t \<longrightarrow> \<not> word_search t syn"
  shows "foldl (red_step syns0) [] ts = []"
  using assms
proof (induction ts)
  case Nil show ?case by simp
next
  case (Cons a ts)
  have "filter (\<lambda>syn. syn \<noteq> a \<and> word_search a syn) syns0 = []"
    using Cons.prems by (auto simp: filter_empty_conv)
  then have "red_step syns0 [] a = []" by (simp add: red_step_def)
  then show ?case using Cons by simp
qed

lemma remove_redundant_syns_idem:
  assumes "\<forall>s \<in> set (remove_redundant_syns syns0). norm_ws s = s"
  shows "remove_redundant_syns (remove_redundant_syns syns0) = remove_redundant_syns syns0"
proof -
  let ?Y = "remove_redundant_syns syns0"
  have "\<forall>t \<in> set (sorted_on_phrase_length ?Y). \<forall>syn \<in> set ?Y. syn \<noteq> t \<longrightarrow> \<not> word_search t syn"
    using assms remove_redundant_syns_normalised [of _ syns0]
    by (auto simp: set_sorted_on_phrase_length)
  then have "find_redundant ?Y = []"
    by (simp add: find_redundant_fold red_step_nothing)
  then show ?thesis by (simp add: remove_redundant_syns_def [of ?Y])
qed

text \<open>
  The phrase searched for is \<^verbatim>\<open>" ".join(syn.split())\<close>, the text searched is the synonym as it
  stands. So the pass does what its docstring says for every pair whose shorter member is
  written with single spaces (lemma \<open>remove_redundant_syns_normalised\<close>), and misses a pair
  whose shorter member holds another whitespace character. A tab inside a synonym passes
  \<^verbatim>\<open>remove_noise_and_punctuation\<close> unchanged.
\<close>

lemmas search_defs = word_search_def re_search_def search_from.simps chr_def
  is_word_def is_digit_def is_upper_def is_lower_def is_space_def lower_char_def is_boundary_def py_def

lemma tab_passes_noise_removal:
  "clean_term (py ''x'' @ [9] @ py ''y z'') = py ''x'' @ [9] @ py ''y z''"
  by (simp add: clean_term_def Let_def hyphens_def re_search_def re_sub_def search_from.simps
      sub_from.simps strip_ws_def spaces2_def plus_def dot_def chr_def is_numeral_or_digit_def
      is_digit_def is_space_def startswith_def py_def)

text \<open>
  C6. The list \<^verbatim>\<open>["x\ty", "x\ty z"]\<close> comes back unchanged, although its first member is a
  whole-word substring of the second (\<^verbatim>\<open>word_search("x\ty")("x\ty z")\<close> matches).
\<close>

theorem C6_tab_separated_phrase:
  "remove_redundant_syns [py ''x'' @ [9] @ py ''y'', py ''x'' @ [9] @ py ''y z'']
     = [py ''x'' @ [9] @ py ''y'', py ''x'' @ [9] @ py ''y z'']
   \<and> word_search (py ''x'' @ [9] @ py ''y'') (py ''x'' @ [9] @ py ''y z'')"
  by (simp add: remove_redundant_syns_def find_redundant_def sorted_on_phrase_length_def
      split_ws_def search_defs)

end
